theory Spec2Isabelle
  imports Main
begin

section \<open>The object store\<close>

text \<open>
  The file tree plugin works on JavaScript objects that are shared by reference: the path
  index holds references to the very node objects that hang below the root, and
  \<^verbatim>\<open>node.children = nodes\<close> mutates such an object in place. The model therefore keeps an
  explicit store. An address is the position of an object in the list of all objects
  allocated so far; allocation appends, so an address never dangles and a new object never
  aliases an old one.

  A node object is either the marker \<^verbatim>\<open>{empty: true}\<close> or \<^verbatim>\<open>{fileData, children}\<close>, where the
  \<^verbatim>\<open>children\<close> property may be missing (\<^verbatim>\<open>copyChildren\<close> leaves it out for files that are
  not expandable). Arrays are objects of their own, since \<^verbatim>\<open>sort\<close> and \<^verbatim>\<open>push\<close> change them in
  place. The \<^verbatim>\<open>fileData\<close> object is never written to by the program and is kept as a value.

  Data read from a JSON text need not be a node. \<open>Other\<close> stands for any value that has
  neither a true \<^verbatim>\<open>empty\<close> nor a \<^verbatim>\<open>fileData\<close> object: \<^verbatim>\<open>null\<close>, a number, a string, a boolean,
  an array, an object such as \<^verbatim>\<open>{}\<close> or \<^verbatim>\<open>{"fileData": null}\<close>. Reading \<^verbatim>\<open>fileData.path\<close> of such
  a value throws a TypeError. It carries its JSON text. Objects with a \<^verbatim>\<open>fileData\<close> that is
  not of the shape \<^verbatim>\<open>{path, name, type, expandable}\<close> of the data model, or with \<^verbatim>\<open>children\<close>
  that are not an array, are not modelled.
\<close>

type_synonym addr = nat

record fileData =
  path :: string
  name :: string
  ftype :: string
  expandable :: bool

datatype obj =
    EmptyMarker
  | Node fileData "addr option"
  | Array "addr list"
  | Other string

type_synonym heap = "obj list"

definition lookup :: "heap \<Rightarrow> addr \<Rightarrow> obj option" where
  "lookup h a = (if a < length h then Some (h ! a) else None)"

definition alloc :: "obj \<Rightarrow> heap \<Rightarrow> addr \<times> heap" where
  "alloc ob h = (length h, h @ [ob])"

definition update :: "addr \<Rightarrow> obj \<Rightarrow> heap \<Rightarrow> heap" where
  "update a ob h = h[a := ob]"

text \<open>
  A call either returns or throws. A function that changes state gives the state back in
  both cases: what was written before a throw stays written.
\<close>

datatype error = TypeError | RangeError | SyntaxError

datatype 'a outcome = Return 'a | Throw error

text \<open>\<^verbatim>\<open>Array.prototype.forEach\<close> with a callback that threads a state and may throw.\<close>

fun forEach :: "('a \<Rightarrow> 's \<Rightarrow> unit outcome \<times> 's) \<Rightarrow> 'a list \<Rightarrow> 's \<Rightarrow> unit outcome \<times> 's" where
  "forEach f [] s = (Return (), s)"
| "forEach f (x # xs) s =
     (case f x s of
        (Return u, s') \<Rightarrow> forEach f xs s'
      | (Throw e, s') \<Rightarrow> (Throw e, s'))"

text \<open>
  \<^verbatim>\<open>node.children.forEach(f)\<close>: the property may be undefined, which makes the call a
  TypeError.
\<close>

definition children_forEach ::
  "heap \<Rightarrow> addr option \<Rightarrow> (addr \<Rightarrow> 's \<Rightarrow> unit outcome \<times> 's) \<Rightarrow> 's \<Rightarrow> unit outcome \<times> 's" where
  "children_forEach h ch f s =
     (case ch of
        None \<Rightarrow> (Throw TypeError, s)
      | Some c \<Rightarrow>
          (case lookup h c of
             Some (Array es) \<Rightarrow> forEach f es s
           | _ \<Rightarrow> (Throw TypeError, s)))"

section \<open>Node helpers\<close>

text \<open>
  \<^verbatim>\<open>isEmptyNode(node)\<close>: \<^verbatim>\<open>node.hasOwnProperty('empty') && node.empty\<close>. (For \<^verbatim>\<open>null\<close> the
  call itself throws a TypeError; every caller goes on to read \<^verbatim>\<open>node.fileData\<close> of a value
  that is not a marker, which for an \<open>Other\<close> value throws the same error.)
\<close>

fun isEmptyNode :: "obj \<Rightarrow> bool" where
  "isEmptyNode EmptyMarker = True"
| "isEmptyNode (Node fd ch) = False"
| "isEmptyNode (Array es) = False"
| "isEmptyNode (Other s) = False"

text \<open>
  \<^verbatim>\<open>sortNodes(first, second)\<close> with its local \<^verbatim>\<open>weight\<close>. Reading \<^verbatim>\<open>node.fileData.type\<close> of
  an object without \<^verbatim>\<open>fileData\<close> is a TypeError, here \<open>None\<close>.
\<close>

definition weight :: "fileData \<Rightarrow> int" where
  "weight fd = (if ftype fd = ''directory'' then 2 else if expandable fd then 1 else 0)"

definition node_weight :: "heap \<Rightarrow> addr \<Rightarrow> int option" where
  "node_weight h a =
     (case lookup h a of
        Some (Node fd ch) \<Rightarrow> Some (weight fd)
      | _ \<Rightarrow> None)"

definition sortNodes :: "heap \<Rightarrow> addr \<Rightarrow> addr \<Rightarrow> int option" where
  "sortNodes h first second =
     (case node_weight h second of
        None \<Rightarrow> None
      | Some k2 \<Rightarrow>
          (case node_weight h first of
             None \<Rightarrow> None
           | Some k1 \<Rightarrow> Some (k2 - k1)))"

section \<open>The indexed tree\<close>

text \<open>
  \<^verbatim>\<open>pathToNodeIndex\<close> is a plain object \<^verbatim>\<open>{}\<close> used as a dictionary from paths to node
  references. Its own properties are a finite map over path strings. The key
  \<^verbatim>\<open>__proto__\<close> is special in JavaScript: assigning an object to it sets the prototype of
  the index object and reading it gives the prototype back, while \<^verbatim>\<open>delete\<close> does nothing to
  it. The entry of the map at \<^verbatim>\<open>__proto__\<close> therefore stands for the prototype (no entry:
  \<^verbatim>\<open>Object.prototype\<close>), and writing is a map update for every key. Reading a key that is
  not an own property goes through the prototype; see \<open>property\<close> below.

  \<^verbatim>\<open>index\<close> and \<^verbatim>\<open>removeFromIndex\<close> recurse along the \<^verbatim>\<open>children\<close> references. The first
  argument bounds the depth of that recursion: it is the room left on the call stack, and
  running out of it is the RangeError of a stack overflow (which is also how a cyclic
  object graph ends).
\<close>

type_synonym pindex = "string \<rightharpoonup> addr"

primrec index :: "nat \<Rightarrow> heap \<Rightarrow> addr \<Rightarrow> pindex \<Rightarrow> unit outcome \<times> pindex" where
  "index 0 h a idx = (Throw RangeError, idx)"
| "index (Suc d) h a idx =
     (case lookup h a of
        None \<Rightarrow> (Throw TypeError, idx)
      | Some ob \<Rightarrow>
          if isEmptyNode ob then (Return (), idx)
          else
            (case ob of
               Node fd ch \<Rightarrow>
                 (let idx' = idx(path fd \<mapsto> a)
                  in if expandable fd then children_forEach h ch (index d h) idx'
                     else (Return (), idx'))
             | _ \<Rightarrow> (Throw TypeError, idx)))"

text \<open>
  \<^verbatim>\<open>removeFromIndex\<close> starts with \<^verbatim>\<open>if (isEmptyNode) { return; }\<close>: the condition is the
  function object itself, not a call of it, and a function object is truthy.
\<close>

definition isEmptyNode_function_is_truthy :: bool where
  "isEmptyNode_function_is_truthy = True"

primrec removeFromIndex :: "nat \<Rightarrow> heap \<Rightarrow> addr \<Rightarrow> pindex \<Rightarrow> unit outcome \<times> pindex" where
  "removeFromIndex 0 h a idx = (Throw RangeError, idx)"
| "removeFromIndex (Suc d) h a idx =
     (if isEmptyNode_function_is_truthy then (Return (), idx)
      else
        (case lookup h a of
           Some (Node fd ch) \<Rightarrow>
             (let idx' = (if path fd = ''__proto__'' then idx else idx(path fd := None))
              in if expandable fd then children_forEach h ch (removeFromIndex d h) idx'
                 else (Return (), idx'))
         | _ \<Rightarrow> (Throw TypeError, idx)))"

text \<open>
  The state: the store, the lines written by \<^verbatim>\<open>console.error\<close>, the browser's
  \<^verbatim>\<open>localStorage\<close>, and one
  \<^verbatim>\<open>IndexedFileDataTree\<close> object, which is its \<^verbatim>\<open>root\<close> reference and the
  \<^verbatim>\<open>pathToNodeIndex\<close> of its closure.
\<close>

record tree =
  root :: addr
  pathToNodeIndex :: pindex

text \<open>
  What \<^verbatim>\<open>JSON.stringify\<close> writes for a node and \<^verbatim>\<open>JSON.parse\<close> reads back: the node as a
  value, without identity; \<open>JOther\<close> is a JSON value that is not a node (see \<open>Other\<close>), given
  by its text. A string kept in \<^verbatim>\<open>localStorage\<close> is modelled by what \<^verbatim>\<open>JSON.parse\<close> makes of
  it: the value it denotes, or a SyntaxError.
\<close>

datatype json = JEmpty | JNode fileData "json list option" | JOther string

datatype jstring = Json json | Malformed

record world =
  heap :: heap
  console :: "string list"
  localStorage :: "string \<rightharpoonup> jstring"

text \<open>\<^verbatim>\<open>getIndexedFileDataTree(root)\<close>: the constructor indexes the root.\<close>

definition getIndexedFileDataTree :: "nat \<Rightarrow> addr \<Rightarrow> world \<Rightarrow> tree outcome" where
  "getIndexedFileDataTree d r w =
     (case index d (heap w) r Map.empty of
        (Return u, idx) \<Rightarrow> Return \<lparr>root = r, pathToNodeIndex = idx\<rparr>
      | (Throw e, idx) \<Rightarrow> Throw e)"

text \<open>
  The value of \<^verbatim>\<open>pathToNodeIndex[path]\<close>: \<^verbatim>\<open>null\<close> (for \<^verbatim>\<open>undefined\<close> as well, which
  \<^verbatim>\<open>== null\<close> does not tell apart), a reference to an object of the store, or a value
  that is neither: a built-in function, \<^verbatim>\<open>Object.prototype\<close>, a \<^verbatim>\<open>fileData\<close> object. Such a
  \<open>Foreign\<close> value has no \<^verbatim>\<open>fileData\<close> and no \<^verbatim>\<open>children\<close> property.
\<close>

datatype jsvalue = Null | Object addr | Foreign

text \<open>The property names every object inherits from \<^verbatim>\<open>Object.prototype\<close>.\<close>

definition Object_prototype_names :: "string list" where
  "Object_prototype_names =
     [''constructor'', ''__defineGetter__'', ''__defineSetter__'', ''hasOwnProperty'',
      ''__lookupGetter__'', ''__lookupSetter__'', ''isPrototypeOf'', ''propertyIsEnumerable'',
      ''toString'', ''valueOf'', ''__proto__'', ''toLocaleString'']"

text \<open>
  Reading \<^verbatim>\<open>pathToNodeIndex[path]\<close>. An own property wins. Otherwise the prototype is
  asked: if \<^verbatim>\<open>index\<close> has put a node under \<^verbatim>\<open>__proto__\<close>, that node is the prototype and
  its \<^verbatim>\<open>fileData\<close> and \<^verbatim>\<open>children\<close> are inherited, before the members of
  \<^verbatim>\<open>Object.prototype\<close>. (Only \<^verbatim>\<open>index\<close> writes to the index, so the prototype is never a
  marker, an array or a value that is not a node; for these the model looks at
  \<^verbatim>\<open>Object.prototype\<close> only.)
\<close>

definition property :: "heap \<Rightarrow> pindex \<Rightarrow> string \<Rightarrow> jsvalue" where
  "property h idx p =
     (case idx p of
        Some node \<Rightarrow> Object node
      | None \<Rightarrow>
          (case idx ''__proto__'' of
             None \<Rightarrow> if p \<in> set Object_prototype_names then Foreign else Null
           | Some proto \<Rightarrow>
               (case lookup h proto of
                  Some (Node fd ch) \<Rightarrow>
                    if p = ''fileData'' then Foreign
                    else if p = ''children''
                    then (case ch of Some c \<Rightarrow> Object c | None \<Rightarrow> Null)
                    else if p \<in> set Object_prototype_names then Foreign else Null
                | _ \<Rightarrow> if p \<in> set Object_prototype_names then Foreign else Null)))"

text \<open>\<^verbatim>\<open>this.get(path)\<close>: a \<^verbatim>\<open>null\<close> is logged and returned, anything else is returned.\<close>

definition tree_get :: "string \<Rightarrow> tree \<Rightarrow> world \<Rightarrow> jsvalue \<times> world" where
  "tree_get p t w =
     (case property (heap w) (pathToNodeIndex t) p of
        Null \<Rightarrow> (Null, w\<lparr>console := console w @ [''No node was found by path: '' @ p]\<rparr>)
      | Object node \<Rightarrow> (Object node, w)
      | Foreign \<Rightarrow> (Foreign, w))"

text \<open>
  \<^verbatim>\<open>this.set(parentPath, nodes)\<close>, where \<open>nodes\<close> is the reference to the array passed in.
  Reading \<^verbatim>\<open>node.fileData\<close> of \<^verbatim>\<open>null\<close> is a TypeError, and so is reading
  \<^verbatim>\<open>node.fileData.expandable\<close> of a value without \<^verbatim>\<open>fileData\<close>.
\<close>

definition tree_set ::
  "nat \<Rightarrow> string \<Rightarrow> addr \<Rightarrow> tree \<Rightarrow> world \<Rightarrow> addr outcome \<times> tree \<times> world" where
  "tree_set d parentPath nodes t w =
     (case tree_get parentPath t w of
        (Null, w1) \<Rightarrow> (Throw TypeError, t, w1)
      | (Foreign, w1) \<Rightarrow> (Throw TypeError, t, w1)
      | (Object node, w1) \<Rightarrow>
          (case lookup (heap w1) node of
             Some (Node fd ch) \<Rightarrow>
               (case (if expandable fd
                      then children_forEach (heap w1) ch (removeFromIndex d (heap w1))
                             (pathToNodeIndex t)
                      else (Return (), pathToNodeIndex t)) of
                  (Throw e, idx1) \<Rightarrow> (Throw e, t\<lparr>pathToNodeIndex := idx1\<rparr>, w1)
                | (Return u, idx1) \<Rightarrow>
                    (let h2 = update node (Node fd (Some nodes)) (heap w1);
                         w2 = w1\<lparr>heap := h2\<rparr>
                     in case children_forEach h2 (Some nodes) (index d h2) idx1 of
                          (Throw e, idx2) \<Rightarrow> (Throw e, t\<lparr>pathToNodeIndex := idx2\<rparr>, w2)
                        | (Return u, idx2) \<Rightarrow> (Return node, t\<lparr>pathToNodeIndex := idx2\<rparr>, w2)))
           | _ \<Rightarrow> (Throw TypeError, t, w1)))"

text \<open>\<^verbatim>\<open>this.clear(parentPath)\<close>; the new \<^verbatim>\<open>[]\<close> is a fresh array object.\<close>

definition tree_clear ::
  "nat \<Rightarrow> string \<Rightarrow> tree \<Rightarrow> world \<Rightarrow> unit outcome \<times> tree \<times> world" where
  "tree_clear d parentPath t w =
     (case tree_get parentPath t w of
        (Null, w1) \<Rightarrow> (Throw TypeError, t, w1)
      | (Foreign, w1) \<Rightarrow> (Throw TypeError, t, w1)
      | (Object node, w1) \<Rightarrow>
          (case lookup (heap w1) node of
             Some (Node fd ch) \<Rightarrow>
               (case (if expandable fd
                      then children_forEach (heap w1) ch (removeFromIndex d (heap w1))
                             (pathToNodeIndex t)
                      else (Return (), pathToNodeIndex t)) of
                  (Throw e, idx1) \<Rightarrow> (Throw e, t\<lparr>pathToNodeIndex := idx1\<rparr>, w1)
                | (Return u, idx1) \<Rightarrow>
                    (let (arr, h2) = alloc (Array []) (heap w1);
                         h3 = update node (Node fd (Some arr)) h2
                     in (Return (), t\<lparr>pathToNodeIndex := idx1\<rparr>, w1\<lparr>heap := h3\<rparr>)))
           | _ \<Rightarrow> (Throw TypeError, t, w1)))"

section \<open>Serialized state\<close>

fun mapM :: "('a \<Rightarrow> 'b outcome) \<Rightarrow> 'a list \<Rightarrow> 'b list outcome" where
  "mapM f [] = Return []"
| "mapM f (x # xs) =
     (case f x of
        Throw e \<Rightarrow> Throw e
      | Return y \<Rightarrow>
          (case mapM f xs of
             Throw e \<Rightarrow> Throw e
           | Return ys \<Rightarrow> Return (y # ys)))"

text \<open>
  \<^verbatim>\<open>JSON.stringify(node)\<close> walks every property, so it follows \<^verbatim>\<open>children\<close> whether or not
  the node is expandable. The depth bound is as for \<^verbatim>\<open>index\<close>; a cyclic object graph makes
  the call throw, whatever the bound.
\<close>

primrec JSON_stringify :: "nat \<Rightarrow> heap \<Rightarrow> addr \<Rightarrow> json outcome" where
  "JSON_stringify 0 h a = Throw RangeError"
| "JSON_stringify (Suc d) h a =
     (case lookup h a of
        Some EmptyMarker \<Rightarrow> Return JEmpty
      | Some (Node fd None) \<Rightarrow> Return (JNode fd None)
      | Some (Node fd (Some c)) \<Rightarrow>
          (case lookup h c of
             Some (Array es) \<Rightarrow>
               (case mapM (JSON_stringify d h) es of
                  Throw e \<Rightarrow> Throw e
                | Return js \<Rightarrow> Return (JNode fd (Some js)))
           | _ \<Rightarrow> Throw TypeError)
      | Some (Other s) \<Rightarrow> Return (JOther s)
      | _ \<Rightarrow> Throw TypeError)"

text \<open>\<^verbatim>\<open>JSON.parse\<close> builds new objects for the value it reads.\<close>

fun alloc_json :: "json \<Rightarrow> heap \<Rightarrow> addr \<times> heap"
  and alloc_jsons :: "json list \<Rightarrow> heap \<Rightarrow> addr list \<times> heap" where
  "alloc_json JEmpty h = alloc EmptyMarker h"
| "alloc_json (JNode fd None) h = alloc (Node fd None) h"
| "alloc_json (JNode fd (Some js)) h =
     (let (es, h1) = alloc_jsons js h;
          (arr, h2) = alloc (Array es) h1
      in alloc (Node fd (Some arr)) h2)"
| "alloc_jsons [] h = ([], h)"
| "alloc_jsons (j # js) h =
     (let (e, h1) = alloc_json j h;
          (es, h2) = alloc_jsons js h1
      in (e # es, h2))"
| "alloc_json (JOther s) h = alloc (Other s) h"

definition JSON_parse :: "jstring \<Rightarrow> world \<Rightarrow> addr outcome \<times> world" where
  "JSON_parse s w =
     (case s of
        Malformed \<Rightarrow> (Throw SyntaxError, w)
      | Json v \<Rightarrow> (let (a, h) = alloc_json v (heap w) in (Return a, w\<lparr>heap := h\<rparr>)))"

section \<open>The state holder\<close>

text \<open>
  \<^verbatim>\<open>LocalStorageStateHolder\<close>: its \<^verbatim>\<open>storageKey\<close> and its \<^verbatim>\<open>tree\<close>.
\<close>

record holder =
  storageKey :: string
  htree :: tree

definition getCurrentState :: "holder \<Rightarrow> addr" where
  "getCurrentState sh = root (htree sh)"

definition saveState :: "nat \<Rightarrow> holder \<Rightarrow> world \<Rightarrow> unit outcome \<times> world" where
  "saveState d sh w =
     (case JSON_stringify d (heap w) (getCurrentState sh) of
        Throw e \<Rightarrow> (Throw e, w)
      | Return v \<Rightarrow>
          (Return (), w\<lparr>localStorage := (localStorage w)(storageKey sh \<mapsto> Json v)\<rparr>))"

definition rootFileData :: fileData where
  "rootFileData = \<lparr>path = [], name = [], ftype = ''directory'', expandable = True\<rparr>"

text \<open>\<^verbatim>\<open>initState()\<close>: build the default root, store it, return it.\<close>

definition initState :: "nat \<Rightarrow> string \<Rightarrow> world \<Rightarrow> addr outcome \<times> world" where
  "initState d key w =
     (let (arr, h1) = alloc (Array []) (heap w);
          (rootNode, h2) = alloc (Node rootFileData (Some arr)) h1;
          w1 = w\<lparr>heap := h2\<rparr>
      in case JSON_stringify d h2 rootNode of
           Throw e \<Rightarrow> (Throw e, w1)
         | Return v \<Rightarrow>
             (Return rootNode, w1\<lparr>localStorage := (localStorage w1)(key \<mapsto> Json v)\<rparr>))"

text \<open>
  \<^verbatim>\<open>getLocalStorageStateHolder(id)\<close>: \<^verbatim>\<open>localStorage.getItem\<close> gives \<^verbatim>\<open>null\<close> for a key
  that is not there, and the stored string otherwise.
\<close>

definition getLocalStorageStateHolder :: "nat \<Rightarrow> string \<Rightarrow> world \<Rightarrow> holder outcome \<times> world" where
  "getLocalStorageStateHolder d ident w =
     (let key = ''ru.kozobrodov.fileTree$'' @ ident
      in case localStorage w key of
           Some stateString \<Rightarrow>
             (case JSON_parse stateString w of
                (Throw e, w1) \<Rightarrow> (Throw e, w1)
              | (Return r, w1) \<Rightarrow>
                  (case getIndexedFileDataTree d r w1 of
                     Throw e \<Rightarrow> (Throw e, w1)
                   | Return t \<Rightarrow> (Return \<lparr>storageKey = key, htree = t\<rparr>, w1)))
         | None \<Rightarrow>
             (case initState d key w of
                (Throw e, w1) \<Rightarrow> (Throw e, w1)
              | (Return r, w1) \<Rightarrow>
                  (case getIndexedFileDataTree d r w1 of
                     Throw e \<Rightarrow> (Throw e, w1)
                   | Return t \<Rightarrow> (Return \<lparr>storageKey = key, htree = t\<rparr>, w1))))"

definition addNodes ::
  "nat \<Rightarrow> string \<Rightarrow> addr \<Rightarrow> holder \<Rightarrow> world \<Rightarrow> addr outcome \<times> holder \<times> world" where
  "addNodes d p children sh w =
     (case tree_set d p children (htree sh) w of
        (Throw e, t, w1) \<Rightarrow> (Throw e, sh\<lparr>htree := t\<rparr>, w1)
      | (Return updatedNode, t, w1) \<Rightarrow>
          (case saveState d (sh\<lparr>htree := t\<rparr>) w1 of
             (Throw e, w2) \<Rightarrow> (Throw e, sh\<lparr>htree := t\<rparr>, w2)
           | (Return u, w2) \<Rightarrow> (Return updatedNode, sh\<lparr>htree := t\<rparr>, w2)))"

definition clearNode ::
  "nat \<Rightarrow> string \<Rightarrow> holder \<Rightarrow> world \<Rightarrow> unit outcome \<times> holder \<times> world" where
  "clearNode d p sh w =
     (case tree_clear d p (htree sh) w of
        (Throw e, t, w1) \<Rightarrow> (Throw e, sh\<lparr>htree := t\<rparr>, w1)
      | (Return u, t, w1) \<Rightarrow>
          (case saveState d (sh\<lparr>htree := t\<rparr>) w1 of
             (Throw e, w2) \<Rightarrow> (Throw e, sh\<lparr>htree := t\<rparr>, w2)
           | (Return u2, w2) \<Rightarrow> (Return (), sh\<lparr>htree := t\<rparr>, w2)))"

section \<open>Data providers\<close>

text \<open>
  \<^verbatim>\<open>Array.prototype.sort(compareFn)\<close> sorts in place and, since ECMAScript 2019, is stable;
  which pairs it compares is left to the engine. The model is the stable insertion sort: an
  array of fewer than two elements is never compared, and in a longer one every element is
  compared at least once. \<open>None\<close> stands for a comparison that throws.
\<close>

fun insert_by :: "('a \<Rightarrow> 'a \<Rightarrow> int option) \<Rightarrow> 'a \<Rightarrow> 'a list \<Rightarrow> 'a list option" where
  "insert_by cmp x [] = Some [x]"
| "insert_by cmp x (y # ys) =
     (case cmp x y of
        None \<Rightarrow> None
      | Some c \<Rightarrow>
          if c \<le> 0 then Some (x # y # ys)
          else (case insert_by cmp x ys of
                  None \<Rightarrow> None
                | Some zs \<Rightarrow> Some (y # zs)))"

fun Array_sort :: "('a \<Rightarrow> 'a \<Rightarrow> int option) \<Rightarrow> 'a list \<Rightarrow> 'a list option" where
  "Array_sort cmp [] = Some []"
| "Array_sort cmp (x # xs) =
     (case Array_sort cmp xs of
        None \<Rightarrow> None
      | Some ys \<Rightarrow> insert_by cmp x ys)"

text \<open>\<^verbatim>\<open>array.push(x)\<close> on the array object at \<open>arr\<close>.\<close>

definition push :: "addr \<Rightarrow> addr \<Rightarrow> heap \<Rightarrow> heap" where
  "push arr x h =
     (case lookup h arr of
        Some (Array es) \<Rightarrow> update arr (Array (es @ [x])) h
      | _ \<Rightarrow> h)"

text \<open>
  \<^verbatim>\<open>JsonDataProvider.list(path, callback)\<close>. The provider's \<^verbatim>\<open>tree\<close> is the argument \<open>t\<close>;
  \<open>Return data\<close> stands for the call \<^verbatim>\<open>callback(data)\<close>, with the reference it is given.
\<close>

definition JsonDataProvider_list :: "string \<Rightarrow> tree \<Rightarrow> world \<Rightarrow> addr outcome \<times> world" where
  "JsonDataProvider_list p t w =
     (case tree_get p t w of
        (Null, w1) \<Rightarrow> (Throw TypeError, w1)
      | (Foreign, w1) \<Rightarrow> (Throw TypeError, w1)
      | (Object node, w1) \<Rightarrow>
          (case lookup (heap w1) node of
             Some (Node fd (Some data)) \<Rightarrow>
               (case lookup (heap w1) data of
                  Some (Array es) \<Rightarrow>
                    (case Array_sort (sortNodes (heap w1)) es of
                       None \<Rightarrow> (Throw TypeError, w1)
                     | Some sorted_es \<Rightarrow>
                         (Return data, w1\<lparr>heap := update data (Array sorted_es) (heap w1)\<rparr>))
                | _ \<Rightarrow> (Throw TypeError, w1))
           | _ \<Rightarrow> (Throw TypeError, w1)))"

text \<open>
  \<^verbatim>\<open>mapToTreeNode(data, callback)\<close> of the service provider: \<open>fds\<close> are the file data
  records the service answered with.
\<close>

fun mapToTreeNode_each :: "addr \<Rightarrow> fileData list \<Rightarrow> heap \<Rightarrow> heap" where
  "mapToTreeNode_each nodes [] h = h"
| "mapToTreeNode_each nodes (fd # fds) h =
     (let (arr, h1) = alloc (Array []) h;
          (node, h2) = alloc (Node fd (Some arr)) h1
      in mapToTreeNode_each nodes fds (push nodes node h2))"

definition mapToTreeNode :: "fileData list \<Rightarrow> world \<Rightarrow> addr outcome \<times> world" where
  "mapToTreeNode fds w =
     (let (nodes, h1) = alloc (Array []) (heap w);
          h2 = mapToTreeNode_each nodes fds h1;
          w2 = w\<lparr>heap := h2\<rparr>
      in case lookup h2 nodes of
           Some (Array es) \<Rightarrow>
             (case Array_sort (sortNodes h2) es of
                None \<Rightarrow> (Throw TypeError, w2)
              | Some sorted_es \<Rightarrow>
                  (Return nodes, w2\<lparr>heap := update nodes (Array sorted_es) h2\<rparr>))
         | _ \<Rightarrow> (Throw TypeError, w2))"

section \<open>The controller\<close>

text \<open>
  \<^verbatim>\<open>copyChildren(children)\<close>: the marker is passed on as it is, any other child is copied
  without its children.
\<close>

definition copyChildren_each :: "addr \<Rightarrow> addr \<Rightarrow> heap \<Rightarrow> unit outcome \<times> heap" where
  "copyChildren_each result child h =
     (case lookup h child of
        None \<Rightarrow> (Throw TypeError, h)
      | Some ob \<Rightarrow>
          if isEmptyNode ob then (Return (), push result child h)
          else
            (case ob of
               Node fd ch \<Rightarrow>
                 if expandable fd
                 then (let (arr, h1) = alloc (Array []) h;
                           (copy, h2) = alloc (Node fd (Some arr)) h1
                       in (Return (), push result copy h2))
                 else (let (copy, h2) = alloc (Node fd None) h
                       in (Return (), push result copy h2))
             | _ \<Rightarrow> (Throw TypeError, h)))"

definition copyChildren :: "addr \<Rightarrow> world \<Rightarrow> addr outcome \<times> world" where
  "copyChildren children w =
     (let (result, h1) = alloc (Array []) (heap w)
      in case children_forEach h1 (Some children) (copyChildren_each result) h1 of
           (Throw e, h2) \<Rightarrow> (Throw e, w\<lparr>heap := h2\<rparr>)
         | (Return u, h2) \<Rightarrow> (Return result, w\<lparr>heap := h2\<rparr>))"

text \<open>
  \<^verbatim>\<open>expandableNodeClickHandler\<close>, without the document it draws into. Collapsing calls
  \<^verbatim>\<open>clearNode\<close>; expanding hands the function below to \<^verbatim>\<open>dataProvider.list\<close> as the
  callback, which receives \<open>data\<close>.
\<close>

definition collapse :: "nat \<Rightarrow> string \<Rightarrow> holder \<Rightarrow> world \<Rightarrow> unit outcome \<times> holder \<times> world" where
  "collapse d p sh w = clearNode d p sh w"

definition expand_callback ::
  "nat \<Rightarrow> string \<Rightarrow> addr \<Rightarrow> holder \<Rightarrow> world \<Rightarrow> addr outcome \<times> holder \<times> world" where
  "expand_callback d p data sh w =
     (let w1 = (case lookup (heap w) data of
                  Some (Array es) \<Rightarrow>
                    if length es = 0
                    then (let (emptyNode, h1) = alloc EmptyMarker (heap w)
                          in w\<lparr>heap := push data emptyNode h1\<rparr>)
                    else w
                | _ \<Rightarrow> w)
      in case copyChildren data w1 of
           (Throw e, w2) \<Rightarrow> (Throw e, sh, w2)
         | (Return copied, w2) \<Rightarrow> addNodes d p copied sh w2)"

section \<open>Auxiliary notions and examples\<close>

text \<open>The object at \<open>x\<close> is a node whose file data carries the path \<open>q\<close>.\<close>

definition indexed_node :: "heap \<Rightarrow> string \<Rightarrow> addr \<Rightarrow> bool" where
  "indexed_node h q x =
     (case lookup h x of
        Some (Node fd ch) \<Rightarrow> path fd = q
      | _ \<Rightarrow> False)"

text \<open>The file data of the node object at an address, and a test on it.\<close>

definition fileData_of :: "heap \<Rightarrow> addr \<Rightarrow> fileData option" where
  "fileData_of h a =
     (case lookup h a of
        Some (Node fd ch) \<Rightarrow> Some fd
      | _ \<Rightarrow> None)"

definition node_has :: "heap \<Rightarrow> (fileData \<Rightarrow> bool) \<Rightarrow> addr \<Rightarrow> bool" where
  "node_has h P a =
     (case fileData_of h a of
        Some fd \<Rightarrow> P fd
      | None \<Rightarrow> False)"

text \<open>The weight \<^verbatim>\<open>sortNodes\<close> computes for the object at an address, 0 where it has none.\<close>

definition weight_of :: "heap \<Rightarrow> addr \<Rightarrow> int" where
  "weight_of h a =
     (case node_weight h a of
        Some k \<Rightarrow> k
      | None \<Rightarrow> 0)"

text \<open>The three classes of the sort order.\<close>

definition is_directory :: "fileData \<Rightarrow> bool" where
  "is_directory fd = (ftype fd = ''directory'')"

definition is_other_expandable :: "fileData \<Rightarrow> bool" where
  "is_other_expandable fd = (ftype fd \<noteq> ''directory'' \<and> expandable fd)"

definition is_plain :: "fileData \<Rightarrow> bool" where
  "is_plain fd = (ftype fd \<noteq> ''directory'' \<and> \<not> expandable fd)"

text \<open>
  Notions on serialized values, used to state what an index holds. \<open>json_depth\<close> is the
  nesting depth of a value, and \<open>json_index\<close> is
  \<^verbatim>\<open>index\<close> run on the value instead of on objects: it records the file data found at each
  path, descends only into expandable nodes, and throws where \<^verbatim>\<open>index\<close> would call
  \<^verbatim>\<open>forEach\<close> on missing children or read \<^verbatim>\<open>fileData.path\<close> of a value that is not a node.
\<close>

fun json_depth :: "json \<Rightarrow> nat"
  and json_depths :: "json list \<Rightarrow> nat" where
  "json_depth JEmpty = 1"
| "json_depth (JNode fd None) = 1"
| "json_depth (JNode fd (Some js)) = Suc (json_depths js)"
| "json_depths [] = 0"
| "json_depths (j # js) = max (json_depth j) (json_depths js)"
| "json_depth (JOther s) = 1"

type_synonym findex = "string \<Rightarrow> fileData option option"

fun json_index :: "json \<Rightarrow> findex \<Rightarrow> unit outcome \<times> findex"
  and json_indexes :: "json list \<Rightarrow> findex \<Rightarrow> unit outcome \<times> findex" where
  "json_index JEmpty m = (Return (), m)"
| "json_index (JNode fd None) m =
     (if expandable fd then (Throw TypeError, m(path fd \<mapsto> Some fd))
      else (Return (), m(path fd \<mapsto> Some fd)))"
| "json_index (JNode fd (Some js)) m =
     (if expandable fd then json_indexes js (m(path fd \<mapsto> Some fd))
      else (Return (), m(path fd \<mapsto> Some fd)))"
| "json_indexes [] m = (Return (), m)"
| "json_indexes (j # js) m =
     (case json_index j m of
        (Return u, m') \<Rightarrow> json_indexes js m'
      | (Throw e, m') \<Rightarrow> (Throw e, m'))"
| "json_index (JOther s) m = (Throw TypeError, m)"

text \<open>
  What an index says, without the identity of the objects: for each indexed path the file
  data of the object it refers to (\<open>Some None\<close> if that object is not a node).
\<close>

text \<open>
  The serialized values that \<^verbatim>\<open>index\<close> gets through: markers, nodes that are not
  expandable, and expandable nodes with a children array of such values.
\<close>

fun indexable :: "json \<Rightarrow> bool"
  and indexables :: "json list \<Rightarrow> bool" where
  "indexable JEmpty = True"
| "indexable (JNode fd None) = (if expandable fd then False else True)"
| "indexable (JNode fd (Some js)) = (if expandable fd then indexables js else True)"
| "indexables [] = True"
| "indexables (j # js) = (if indexable j then indexables js else False)"
| "indexable (JOther s) = False"

definition index_view :: "heap \<Rightarrow> pindex \<Rightarrow> findex" where
  "index_view h idx q = map_option (fileData_of h) (idx q)"

text \<open>
  A store holding the root directory with one expanded child, the empty directory
  \<^verbatim>\<open>/a\<close>: address 3 is the root, 2 its children array, 1 the child, 0 the child's
  children array.
\<close>

definition dirA :: fileData where
  "dirA = \<lparr>path = ''/a'', name = ''a'', ftype = ''directory'', expandable = True\<rparr>"

definition example_heap :: heap where
  "example_heap = [Array [], Node dirA (Some 0), Array [1], Node rootFileData (Some 2)]"

definition example_world :: world where
  "example_world = \<lparr>heap = example_heap, console = [], localStorage = Map.empty\<rparr>"

definition example_tree :: tree where
  "example_tree = \<lparr>root = 3, pathToNodeIndex = [[] \<mapsto> 3, ''/a'' \<mapsto> 1]\<rparr>"

text \<open>A browser whose storage holds that tree under the key of the tree identifier \<^verbatim>\<open>A\<close>.\<close>

definition stored_world :: world where
  "stored_world =
     \<lparr>heap = [], console = [],
      localStorage = [''ru.kozobrodov.fileTree$A'' \<mapsto>
        Json (JNode rootFileData (Some [JNode dirA (Some [])]))]\<rparr>"

text \<open>
  A provider tree whose root lists a text file, the directory \<^verbatim>\<open>/a\<close> and a zip archive, in
  this order: address 6 is the root, 5 its children array.
\<close>

definition plainT :: fileData where
  "plainT = \<lparr>path = ''/t'', name = ''t'', ftype = ''text/plain'', expandable = False\<rparr>"

definition zipZ :: fileData where
  "zipZ = \<lparr>path = ''/z'', name = ''z'', ftype = ''application/zip'', expandable = True\<rparr>"

definition sort_world :: world where
  "sort_world =
     \<lparr>heap = [Node plainT None, Array [], Node dirA (Some 1), Array [], Node zipZ (Some 3),
              Array [0, 2, 4], Node rootFileData (Some 5)],
      console = [], localStorage = Map.empty\<rparr>"

definition sort_tree :: tree where
  "sort_tree =
     \<lparr>root = 6, pathToNodeIndex = [[] \<mapsto> 6, ''/t'' \<mapsto> 0, ''/a'' \<mapsto> 2, ''/z'' \<mapsto> 4]\<rparr>"

text \<open>
  The store of the example tree, and two arrays besides that each hold a node of their own
  for the empty directory \<^verbatim>\<open>/b\<close>: the array at 6 holds the node at 5, the array at 9 the
  node at 8.
\<close>

definition dirB :: fileData where
  "dirB = \<lparr>path = ''/b'', name = ''b'', ftype = ''directory'', expandable = True\<rparr>"

definition twice_world :: world where
  "twice_world =
     \<lparr>heap = example_heap @
              [Array [], Node dirB (Some 4), Array [5],
               Array [], Node dirB (Some 7), Array [8]],
      console = [], localStorage = Map.empty\<rparr>"





text \<open>
  Browsers whose storage holds, under the key of the tree identifier \<^verbatim>\<open>A\<close>, the JSON text
  \<^verbatim>\<open>null\<close>, and the root directory without a \<^verbatim>\<open>children\<close> property.
\<close>

definition null_world :: world where
  "null_world =
     \<lparr>heap = [], console = [],
      localStorage = [''ru.kozobrodov.fileTree$A'' \<mapsto> Json (JOther ''null'')]\<rparr>"

definition childless_world :: world where
  "childless_world =
     \<lparr>heap = [], console = [],
      localStorage = [''ru.kozobrodov.fileTree$A'' \<mapsto> Json (JNode rootFileData None)]\<rparr>"

text \<open>A browser whose storage holds, under the key of the tree identifier \<^verbatim>\<open>A\<close>, a string that is not JSON.\<close>

definition corrupt_world :: world where
  "corrupt_world =
     \<lparr>heap = [], console = [],
      localStorage = [''ru.kozobrodov.fileTree$A'' \<mapsto> Malformed]\<rparr>"

text \<open>A browser with nothing stored.\<close>

definition fresh_world :: world where
  "fresh_world = \<lparr>heap = [], console = [], localStorage = Map.empty\<rparr>"

text \<open>
  A holder with a collapsed root (address 1), and at address 2 the empty array a provider
  delivers for a directory without children.
\<close>

definition listing_world :: world where
  "listing_world =
     \<lparr>heap = [Array [], Node rootFileData (Some 0), Array []],
      console = [], localStorage = Map.empty\<rparr>"

definition listing_holder :: holder where
  "listing_holder =
     \<lparr>storageKey = ''ru.kozobrodov.fileTree$A'',
      htree = \<lparr>root = 1, pathToNodeIndex = [[] \<mapsto> 1]\<rparr>\<rparr>"

section \<open>Store and traversal lemmas\<close>

lemma lookup_alloc: "alloc ob h = (a, h') \<Longrightarrow> lookup h' b = (if b = a then Some ob else lookup h b)"
  by (auto simp: alloc_def lookup_def nth_append)

lemma lookup_update: "lookup (update a ob h) b = (if b = a \<and> a < length h then Some ob else lookup h b)"
  by (auto simp: update_def lookup_def)

lemma lookup_Some_less: "lookup h a = Some ob \<Longrightarrow> a < length h"
  by (auto simp: lookup_def split: if_splits)

lemma property_own: "idx p = Some a \<Longrightarrow> property h idx p = Object a"
  by (simp add: property_def)

lemma tree_get_own: "pathToNodeIndex t p = Some a \<Longrightarrow> tree_get p t w = (Object a, w)"
  by (simp add: tree_get_def property_own)

lemma forEach_rel:
  assumes refl: "\<And>s. R s s"
    and trans: "\<And>s1 s2 s3. R s1 s2 \<Longrightarrow> R s2 s3 \<Longrightarrow> R s1 s3"
    and step: "\<And>x s r s'. f x s = (r, s') \<Longrightarrow> R s s'"
    and run: "forEach f xs s = (r, s')"
  shows "R s s'"
  using run
proof (induction xs arbitrary: s)
  case Nil
  then show ?case using refl by simp
next
  case (Cons x xs)
  obtain r1 s1 where f: "f x s = (r1, s1)" by (cases "f x s")
  have R1: "R s s1" using step f by blast
  show ?case
  proof (cases r1)
    case (Return u)
    with Cons.prems f have "forEach f xs s1 = (r, s')" by simp
    then have "R s1 s'" using Cons.IH by simp
    with R1 show ?thesis using trans by blast
  next
    case (Throw e)
    with Cons.prems f have "s' = s1" by simp
    with R1 show ?thesis by simp
  qed
qed

lemma index_sound:
  "index d h a idx = (r, idx') \<Longrightarrow> idx' q = Some x \<Longrightarrow> idx q = Some x \<or> indexed_node h q x"
proof (induction d arbitrary: a idx r idx' q x)
  case 0
  then show ?case by simp
next
  case (Suc d)
  define R where "R = (\<lambda>(s::pindex) s'. \<forall>q x. s' q = Some x \<longrightarrow> s q = Some x \<or> indexed_node h q x)"
  have R_refl: "\<And>s. R s s" by (simp add: R_def)
  have R_trans: "\<And>s1 s2 s3. R s1 s2 \<Longrightarrow> R s2 s3 \<Longrightarrow> R s1 s3"
    unfolding R_def by blast
  have R_step: "\<And>e s r s'. index d h e s = (r, s') \<Longrightarrow> R s s'"
    unfolding R_def using Suc.IH by blast
  have "R idx idx'"
  proof (cases "lookup h a")
    case None
    with Suc.prems show ?thesis by (simp add: R_def)
  next
    case (Some ob)
    show ?thesis
    proof (cases ob)
      case EmptyMarker
      with Some Suc.prems show ?thesis by (simp add: R_def)
    next
      case (Array es)
      with Some Suc.prems show ?thesis by (simp add: R_def)
    next
      case (Other s)
      with Some Suc.prems show ?thesis by (simp add: R_def)
    next
      case (Node fd ch)
      let ?idx1 = "idx(path fd \<mapsto> a)"
      have g1: "R idx ?idx1"
        using Some Node by (simp add: R_def indexed_node_def)
      show ?thesis
      proof (cases "expandable fd")
        case False
        with Some Node Suc.prems g1 show ?thesis by auto
      next
        case True
        with Some Node Suc.prems have run: "children_forEach h ch (index d h) ?idx1 = (r, idx')"
          by simp
        have "R ?idx1 idx'"
        proof (cases ch)
          case None
          with run show ?thesis by (simp add: children_forEach_def R_refl)
        next
          case (Some c)
          show ?thesis
          proof (cases "lookup h c")
            case None
            with Some run show ?thesis by (simp add: children_forEach_def R_refl)
          next
            case (Some oc)
            show ?thesis
            proof (cases oc)
              case (Array es)
              with \<open>ch = Some c\<close> Some run have fe: "forEach (index d h) es ?idx1 = (r, idx')"
                by (simp add: children_forEach_def)
              show ?thesis
                by (rule forEach_rel[where R = R and f = "index d h", OF R_refl R_trans R_step fe])
            qed (use \<open>ch = Some c\<close> Some run in \<open>simp_all add: children_forEach_def R_refl\<close>)
          qed
        qed
        with g1 show ?thesis using R_trans by blast
      qed
    qed
  qed
  with Suc.prems(2) show ?case by (simp add: R_def)
qed


section \<open>Sorting lemmas\<close>

lemma three_way_split:
  fixes f :: "'a \<Rightarrow> int"
  assumes "sorted (map f ys)" and "\<forall>y\<in>set ys. f y = a \<or> f y = b \<or> f y = c" and "a < b" and "b < c"
  shows "ys = filter (\<lambda>y. f y = a) ys @ filter (\<lambda>y. f y = b) ys @ filter (\<lambda>y. f y = c) ys"
  using assms(1,2)
proof (induction ys)
  case Nil
  then show ?case by simp
next
  case (Cons y ys)
  then have IH: "ys = filter (\<lambda>y. f y = a) ys @ filter (\<lambda>y. f y = b) ys @ filter (\<lambda>y. f y = c) ys"
    by simp
  have ge: "\<forall>z\<in>set ys. f y \<le> f z" using Cons.prems(1) by simp
  have cls: "f y = a \<or> f y = b \<or> f y = c" using Cons.prems(2) by simp
  then consider (A) "f y = a" | (B) "f y = b" | (C) "f y = c" by blast
  then show ?case
  proof cases
    case A
    with assms(3,4) IH show ?thesis by simp
  next
    case B
    with ge assms(3) have "filter (\<lambda>y. f y = a) ys = []"
      by (auto simp: filter_empty_conv)
    with B assms(3,4) IH show ?thesis by simp
  next
    case C
    with ge assms(3,4) have "filter (\<lambda>y. f y = a) ys = []" "filter (\<lambda>y. f y = b) ys = []"
      by (auto simp: filter_empty_conv)
    with C assms(3,4) IH show ?thesis by simp
  qed
qed

lemma sort_key_three_way:
  fixes f :: "'a \<Rightarrow> int"
  assumes "\<forall>y\<in>set xs. f y = a \<or> f y = b \<or> f y = c" and "a < b" and "b < c"
  shows "sort_key f xs = filter (\<lambda>y. f y = a) xs @ filter (\<lambda>y. f y = b) xs @ filter (\<lambda>y. f y = c) xs"
proof -
  have "sort_key f xs = filter (\<lambda>y. f y = a) (sort_key f xs) @ filter (\<lambda>y. f y = b) (sort_key f xs)
      @ filter (\<lambda>y. f y = c) (sort_key f xs)"
    by (rule three_way_split) (use assms in auto)
  then show ?thesis by (simp only: sort_key_stable)
qed

lemma node_weight_fileData: "node_weight h a = map_option weight (fileData_of h a)"
  by (simp add: node_weight_def fileData_of_def split: option.splits obj.splits)

lemma insert_by_insort:
  assumes "fileData_of h x \<noteq> None" and "\<forall>y\<in>set ys. fileData_of h y \<noteq> None"
  shows "insert_by (sortNodes h) x ys = Some (insort_key (\<lambda>a. - weight_of h a) x ys)"
  using assms(2)
proof (induction ys)
  case Nil
  then show ?case by simp
next
  case (Cons y ys)
  from assms(1) Cons.prems obtain fx fy where "fileData_of h x = Some fx" "fileData_of h y = Some fy"
    by auto
  with Cons show ?case
    by (simp add: sortNodes_def node_weight_fileData weight_of_def)
qed

lemma Array_sort_sort_key:
  "\<forall>x\<in>set xs. fileData_of h x \<noteq> None \<Longrightarrow>
   Array_sort (sortNodes h) xs = Some (sort_key (\<lambda>a. - weight_of h a) xs)"
proof (induction xs)
  case Nil
  then show ?case by simp
next
  case (Cons x xs)
  then show ?case by (simp add: insert_by_insort)
qed

lemma weight_classes:
  "fileData_of h e = Some fd \<Longrightarrow>
     (weight_of h e = 2) = node_has h is_directory e \<and>
     (weight_of h e = 1) = node_has h is_other_expandable e \<and>
     (weight_of h e = 0) = node_has h is_plain e"
  by (simp add: weight_of_def node_weight_fileData weight_def node_has_def is_directory_def
      is_other_expandable_def is_plain_def)

lemma Array_sort_classes:
  assumes "\<forall>x\<in>set xs. fileData_of h x \<noteq> None"
  shows "Array_sort (sortNodes h) xs =
     Some (filter (node_has h is_directory) xs @ filter (node_has h is_other_expandable) xs
           @ filter (node_has h is_plain) xs)"
proof -
  let ?f = "\<lambda>a::addr. - weight_of h a"
  have cls: "\<forall>y\<in>set xs. ?f y = - 2 \<or> ?f y = - 1 \<or> ?f y = 0"
  proof
    fix y assume "y \<in> set xs"
    with assms obtain fd where "fileData_of h y = Some fd" by auto
    then show "?f y = - 2 \<or> ?f y = - 1 \<or> ?f y = 0"
      by (simp add: weight_of_def node_weight_fileData weight_def)
  qed
  have eqs: "filter (\<lambda>y. ?f y = - 2) xs = filter (node_has h is_directory) xs"
    "filter (\<lambda>y. ?f y = - 1) xs = filter (node_has h is_other_expandable) xs"
    "filter (\<lambda>y. ?f y = 0) xs = filter (node_has h is_plain) xs"
  proof -
    have w: "\<And>e. e \<in> set xs \<Longrightarrow>
        (weight_of h e = 2) = node_has h is_directory e \<and>
        (weight_of h e = 1) = node_has h is_other_expandable e \<and>
        (weight_of h e = 0) = node_has h is_plain e"
    proof -
      fix e assume "e \<in> set xs"
      with assms obtain fd where "fileData_of h e = Some fd" by auto
      then show "(weight_of h e = 2) = node_has h is_directory e \<and>
        (weight_of h e = 1) = node_has h is_other_expandable e \<and>
        (weight_of h e = 0) = node_has h is_plain e"
        by (rule weight_classes)
    qed
    show "filter (\<lambda>y. ?f y = - 2) xs = filter (node_has h is_directory) xs"
      by (rule filter_cong) (simp_all add: w)
    show "filter (\<lambda>y. ?f y = - 1) xs = filter (node_has h is_other_expandable) xs"
      by (rule filter_cong) (simp_all add: w)
    show "filter (\<lambda>y. ?f y = 0) xs = filter (node_has h is_plain) xs"
      by (rule filter_cong) (simp_all add: w)
  qed
  have "sort_key ?f xs = filter (\<lambda>y. ?f y = - 2) xs @ filter (\<lambda>y. ?f y = - 1) xs
      @ filter (\<lambda>y. ?f y = 0) xs"
    by (rule sort_key_three_way[OF cls]) simp_all
  with eqs Array_sort_sort_key[OF assms] show ?thesis by simp
qed

lemma lookup_alloc_old:
  "alloc ob h = (a, h') \<Longrightarrow> lookup h e = Some x \<Longrightarrow> lookup h' e = Some x"
  by (auto simp: alloc_def lookup_def nth_append split: if_splits)

lemma fileData_of_alloc:
  "alloc ob h = (a, h') \<Longrightarrow> fileData_of h e = Some fd \<Longrightarrow> fileData_of h' e = Some fd"
proof -
  assume a: "alloc ob h = (a, h')" and f: "fileData_of h e = Some fd"
  from f obtain ch where "lookup h e = Some (Node fd ch)"
    by (auto simp: fileData_of_def split: option.splits obj.splits)
  then have "lookup h' e = Some (Node fd ch)" using a by (rule lookup_alloc_old[rotated])
  then show ?thesis by (simp add: fileData_of_def)
qed

lemma fileData_of_update_Array:
  "lookup h a = Some (Array es) \<Longrightarrow> fileData_of (update a (Array es') h) e = fileData_of h e"
  by (auto simp: fileData_of_def lookup_update split: option.splits obj.splits)

lemma fileData_of_push: "fileData_of (push arr x h) e = fileData_of h e"
  by (simp add: push_def fileData_of_update_Array split: option.splits obj.splits)

lemma lookup_push:
  "lookup h arr = Some (Array es) \<Longrightarrow>
   lookup (push arr x h) b = (if b = arr then Some (Array (es @ [x])) else lookup h b)"
  by (auto simp: push_def lookup_update dest: lookup_Some_less)

lemma mapToTreeNode_each_spec:
  "lookup h nodes = Some (Array es0) \<Longrightarrow>
   \<exists>new. lookup (mapToTreeNode_each nodes fds h) nodes = Some (Array (es0 @ new)) \<and>
         map (fileData_of (mapToTreeNode_each nodes fds h)) new = map Some fds \<and>
         (\<forall>e fd. fileData_of h e = Some fd \<longrightarrow>
                 fileData_of (mapToTreeNode_each nodes fds h) e = Some fd)"
proof (induction fds arbitrary: h es0)
  case Nil
  then show ?case by simp
next
  case (Cons fd fds)
  define h1 where "h1 = h @ [Array []]"
  define h2 where "h2 = h1 @ [Node fd (Some (length h))]"
  define node where "node = length h1"
  define h3 where "h3 = push nodes node h2"
  have a1: "alloc (Array []) h = (length h, h1)" by (simp add: alloc_def h1_def)
  have a2: "alloc (Node fd (Some (length h))) h1 = (node, h2)"
    by (simp add: alloc_def h2_def node_def)
  have step: "mapToTreeNode_each nodes (fd # fds) h = mapToTreeNode_each nodes fds h3"
    by (simp add: a1 a2 h3_def)
  have lt: "nodes < length h" using Cons.prems by (rule lookup_Some_less)
  have l2: "lookup h2 nodes = Some (Array es0)"
    using Cons.prems by (intro lookup_alloc_old[OF a2] lookup_alloc_old[OF a1])
  have l3: "lookup h3 nodes = Some (Array (es0 @ [node]))"
    by (simp add: h3_def lookup_push[OF l2])
  have "fileData_of h2 node = Some fd"
    by (simp add: fileData_of_def lookup_alloc[OF a2])
  then have fdn: "fileData_of h3 node = Some fd"
    by (simp add: h3_def fileData_of_push)
  have pres: "\<And>e f. fileData_of h e = Some f \<Longrightarrow> fileData_of h3 e = Some f"
    by (simp add: h3_def fileData_of_push fileData_of_alloc[OF a2] fileData_of_alloc[OF a1])
  from Cons.IH[OF l3] obtain new where
    n1: "lookup (mapToTreeNode_each nodes fds h3) nodes = Some (Array ((es0 @ [node]) @ new))" and
    n2: "map (fileData_of (mapToTreeNode_each nodes fds h3)) new = map Some fds" and
    n3: "\<forall>e f. fileData_of h3 e = Some f \<longrightarrow> fileData_of (mapToTreeNode_each nodes fds h3) e = Some f"
    by blast
  show ?case
  proof (intro exI[of _ "node # new"] conjI allI impI)
    show "lookup (mapToTreeNode_each nodes (fd # fds) h) nodes = Some (Array (es0 @ node # new))"
      using n1 step by simp
    show "map (fileData_of (mapToTreeNode_each nodes (fd # fds) h)) (node # new) = map Some (fd # fds)"
      using n2 n3 fdn step by simp
    fix e f assume "fileData_of h e = Some f"
    then show "fileData_of (mapToTreeNode_each nodes (fd # fds) h) e = Some f"
      using pres n3 step by simp
  qed
qed

lemma map_filter_node_has:
  assumes "map (fileData_of h) es = map Some fds"
  shows "map (fileData_of h) (filter (node_has h P) es) = map Some (filter P fds)"
proof -
  have "filter (node_has h P) es = filter ((\<lambda>z. case z of Some fd \<Rightarrow> P fd | None \<Rightarrow> False) \<circ> fileData_of h) es"
    by (rule filter_cong) (simp_all add: node_has_def)
  then have "map (fileData_of h) (filter (node_has h P) es)
      = filter (\<lambda>z. case z of Some fd \<Rightarrow> P fd | None \<Rightarrow> False) (map (fileData_of h) es)"
    by (simp add: filter_map)
  also have "\<dots> = filter (\<lambda>z. case z of Some fd \<Rightarrow> P fd | None \<Rightarrow> False) (map Some fds)"
    by (simp add: assms)
  also have "\<dots> = map Some (filter P fds)"
    by (simp add: filter_map comp_def)
  finally show ?thesis .
qed

lemma mapToTreeNode_spec:
  "\<exists>nodes es' w'. mapToTreeNode fds w = (Return nodes, w') \<and>
      lookup (heap w') nodes = Some (Array es') \<and>
      map (fileData_of (heap w')) es' =
        map Some (filter is_directory fds @ filter is_other_expandable fds @ filter is_plain fds)"
proof -
  define nodes where "nodes = length (heap w)"
  define h1 where "h1 = heap w @ [Array []]"
  define h2 where "h2 = mapToTreeNode_each nodes fds h1"
  have a1: "alloc (Array []) (heap w) = (nodes, h1)" by (simp add: alloc_def nodes_def h1_def)
  have l1: "lookup h1 nodes = Some (Array [])" by (simp add: lookup_alloc[OF a1])
  from mapToTreeNode_each_spec[OF l1, of fds] obtain es where
    l2: "lookup h2 nodes = Some (Array es)" and fds: "map (fileData_of h2) es = map Some fds"
    unfolding h2_def by auto
  have all: "\<forall>x\<in>set es. fileData_of h2 x \<noteq> None"
  proof
    fix x assume "x \<in> set es"
    then have "fileData_of h2 x \<in> set (map (fileData_of h2) es)" by simp
    then show "fileData_of h2 x \<noteq> None" unfolding fds by auto
  qed
  let ?es' = "filter (node_has h2 is_directory) es @ filter (node_has h2 is_other_expandable) es
      @ filter (node_has h2 is_plain) es"
  let ?w' = "w\<lparr>heap := update nodes (Array ?es') h2\<rparr>"
  have run: "mapToTreeNode fds w = (Return nodes, ?w')"
    by (simp add: mapToTreeNode_def a1 h2_def[symmetric] l2 Array_sort_classes[OF all])
  have l3: "lookup (heap ?w') nodes = Some (Array ?es')"
    using lookup_Some_less[OF l2] by (simp add: lookup_update)
  have "map (fileData_of (heap ?w')) ?es' = map (fileData_of h2) ?es'"
    by (simp add: fileData_of_update_Array[OF l2])
  also have "\<dots> = map Some (filter is_directory fds @ filter is_other_expandable fds @ filter is_plain fds)"
    by (simp add: map_filter_node_has[OF fds])
  finally show ?thesis using run l3 by blast
qed

section \<open>Serialization lemmas\<close>

lemma mapM_Return:
  "(mapM f xs = Return ys) = list_all2 (\<lambda>x y. f x = Return y) xs ys"
proof (induction xs arbitrary: ys)
  case Nil
  then show ?case by auto
next
  case (Cons x xs)
  show ?case
  proof (cases "f x")
    case (Throw e)
    then show ?thesis by (auto simp: list_all2_Cons1)
  next
    case (Return y)
    show ?thesis
    proof (cases "mapM f xs")
      case (Throw e)
      with Return Cons.IH show ?thesis by (auto simp: list_all2_Cons1)
    next
      case Return2: (Return zs)
      with Return Cons.IH[of zs] Cons.IH show ?thesis
        by (auto simp: list_all2_Cons1)
    qed
  qed
qed

lemma stringify_Suc:
  "JSON_stringify d h a = Return v \<Longrightarrow> JSON_stringify (Suc d) h a = Return v"
proof (induction d arbitrary: a v)
  case 0
  then show ?case by simp
next
  case (Suc d)
  show ?case
  proof (cases "lookup h a")
    case None
    with Suc.prems show ?thesis by simp
  next
    case (Some ob)
    show ?thesis
    proof (cases ob)
      case EmptyMarker
      with Some Suc.prems show ?thesis by simp
    next
      case (Array es)
      with Some Suc.prems show ?thesis by simp
    next
      case (Other s)
      with Some Suc.prems show ?thesis by simp
    next
      case (Node fd ch)
      show ?thesis
      proof (cases ch)
        case None
        with Some Node Suc.prems show ?thesis by simp
      next
        case (Some c)
        with \<open>lookup h a = Some ob\<close> Node Suc.prems obtain es js where
          c: "lookup h c = Some (Array es)" and
          m: "mapM (JSON_stringify d h) es = Return js" and v: "v = JNode fd (Some js)"
          by (auto split: option.splits obj.splits outcome.splits)
        from m have "list_all2 (\<lambda>x y. JSON_stringify d h x = Return y) es js"
          by (simp add: mapM_Return)
        then have "list_all2 (\<lambda>x y. JSON_stringify (Suc d) h x = Return y) es js"
          by (rule list_all2_mono) (rule Suc.IH)
        then have "mapM (JSON_stringify (Suc d) h) es = Return js"
          by (simp add: mapM_Return)
        with \<open>lookup h a = Some ob\<close> Node Some c v show ?thesis by simp
      qed
    qed
  qed
qed

lemma stringify_fuel_mono:
  "JSON_stringify d h a = Return v \<Longrightarrow> d \<le> d' \<Longrightarrow> JSON_stringify d' h a = Return v"
proof (induction d')
  case 0
  then show ?case by simp
next
  case (Suc d')
  show ?case
  proof (cases "d = Suc d'")
    case True
    with Suc.prems show ?thesis by simp
  next
    case False
    with Suc.prems have "d \<le> d'" by simp
    with Suc have "JSON_stringify d' h a = Return v" by blast
    then show ?thesis by (rule stringify_Suc)
  qed
qed

lemma stringify_heap_ext:
  assumes ext: "\<And>b ob. lookup h b = Some ob \<Longrightarrow> lookup h' b = Some ob"
  shows "JSON_stringify d h a = Return v \<Longrightarrow> JSON_stringify d h' a = Return v"
proof (induction d arbitrary: a v)
  case 0
  then show ?case by simp
next
  case (Suc d)
  show ?case
  proof (cases "lookup h a")
    case None
    with Suc.prems show ?thesis by simp
  next
    case (Some ob)
    then have l': "lookup h' a = Some ob" by (rule ext)
    show ?thesis
    proof (cases ob)
      case EmptyMarker
      with Some l' Suc.prems show ?thesis by simp
    next
      case (Array es)
      with Some Suc.prems show ?thesis by simp
    next
      case (Other s)
      with Some l' Suc.prems show ?thesis by simp
    next
      case (Node fd ch)
      show ?thesis
      proof (cases ch)
        case None
        with Some l' Node Suc.prems show ?thesis by simp
      next
        case (Some c)
        with \<open>lookup h a = Some ob\<close> Node Suc.prems obtain es js where
          c: "lookup h c = Some (Array es)" and
          m: "mapM (JSON_stringify d h) es = Return js" and v: "v = JNode fd (Some js)"
          by (auto split: option.splits obj.splits outcome.splits)
        from m have "list_all2 (\<lambda>x y. JSON_stringify d h x = Return y) es js"
          by (simp add: mapM_Return)
        then have "list_all2 (\<lambda>x y. JSON_stringify d h' x = Return y) es js"
          by (rule list_all2_mono) (rule Suc.IH)
        then have "mapM (JSON_stringify d h') es = Return js"
          by (simp add: mapM_Return)
        with l' Node Some ext[OF c] v show ?thesis by simp
      qed
    qed
  qed
qed

lemma alloc_keeps: "alloc ob h = (a, h') \<Longrightarrow> lookup h b = Some x \<Longrightarrow> lookup h' b = Some x"
  by (auto simp: alloc_def lookup_def nth_append split: if_splits)

lemma alloc_json_keeps:
  "alloc_json v h = (a, h') \<Longrightarrow> lookup h b = Some x \<Longrightarrow> lookup h' b = Some x"
  "alloc_jsons js h = (es, h') \<Longrightarrow> lookup h b = Some x \<Longrightarrow> lookup h' b = Some x"
proof (induction v h and js h arbitrary: a h' and es h' rule: alloc_json_alloc_jsons.induct)
  case (1 h)
  then show ?case by (simp add: alloc_keeps)
next
  case (2 fd h)
  then show ?case by (simp add: alloc_keeps)
next
  case (3 fd js h)
  obtain es h1 where j: "alloc_jsons js h = (es, h1)" by (cases "alloc_jsons js h")
  obtain arr h2 where a2: "alloc (Array es) h1 = (arr, h2)" by (cases "alloc (Array es) h1")
  from 3(2) j a2 have a3: "alloc (Node fd (Some arr)) h2 = (a, h')" by simp
  from 3(1)[OF j 3(3)] have "lookup h1 b = Some x" .
  then have "lookup h2 b = Some x" using a2 by (rule alloc_keeps[rotated])
  then show ?case using a3 by (rule alloc_keeps[rotated])
next
  case (4 h)
  then show ?case by simp
next
  case (5 j js h)
  obtain e h1 where j: "alloc_json j h = (e, h1)" by (cases "alloc_json j h")
  obtain es' h2 where js: "alloc_jsons js h1 = (es', h2)" by (cases "alloc_jsons js h1")
  from 5(3) j js have "h' = h2" by simp
  moreover from 5(1)[OF j 5(4)] have "lookup h1 b = Some x" .
  ultimately show ?case using 5(2)[OF j[symmetric] refl js] by simp
next
  case (6 s h)
  then show ?case by (simp add: alloc_keeps)
qed


lemma alloc_json_stringify:
  "alloc_json v h = (a, h') \<Longrightarrow> JSON_stringify (json_depth v) h' a = Return v"
  "alloc_jsons js h = (es, h') \<Longrightarrow>
     list_all2 (\<lambda>e j. JSON_stringify (json_depths js) h' e = Return j) es js"
proof (induction v h and js h arbitrary: a h' and es h' rule: alloc_json_alloc_jsons.induct)
  case (1 h)
  then show ?case by (auto simp: alloc_def lookup_def)
next
  case (2 fd h)
  then show ?case by (auto simp: alloc_def lookup_def)
next
  case (3 fd js h)
  obtain es h1 where j: "alloc_jsons js h = (es, h1)" by (cases "alloc_jsons js h")
  obtain arr h2 where a2: "alloc (Array es) h1 = (arr, h2)" by (cases "alloc (Array es) h1")
  from 3(2) j a2 have a3: "alloc (Node fd (Some arr)) h2 = (a, h')" by simp
  have la: "lookup h' a = Some (Node fd (Some arr))" by (simp add: lookup_alloc[OF a3])
  have "lookup h2 arr = Some (Array es)" by (simp add: lookup_alloc[OF a2])
  then have larr: "lookup h' arr = Some (Array es)" using a3 by (rule alloc_keeps[rotated])
  have keep: "\<And>b ob. lookup h1 b = Some ob \<Longrightarrow> lookup h' b = Some ob"
    using a2 a3 by (blast intro: alloc_keeps)
  from 3(1)[OF j] have "list_all2 (\<lambda>e j. JSON_stringify (json_depths js) h1 e = Return j) es js" .
  then have "list_all2 (\<lambda>e j. JSON_stringify (json_depths js) h' e = Return j) es js"
    by (rule list_all2_mono) (rule stringify_heap_ext[OF keep])
  then have "mapM (JSON_stringify (json_depths js) h') es = Return js"
    by (simp add: mapM_Return)
  with la larr show ?case by simp
next
  case (4 h)
  then show ?case by simp
next
  case (5 j js h)
  obtain e h1 where j: "alloc_json j h = (e, h1)" by (cases "alloc_json j h")
  obtain es' h2 where js: "alloc_jsons js h1 = (es', h2)" by (cases "alloc_jsons js h1")
  from 5(3) j js have eq: "es = e # es'" "h' = h2" by simp_all
  have keep: "\<And>b ob. lookup h1 b = Some ob \<Longrightarrow> lookup h2 b = Some ob"
    using js by (rule alloc_json_keeps(2))
  from 5(1)[OF j] have s1: "JSON_stringify (json_depth j) h1 e = Return j" .
  have "JSON_stringify (json_depth j) h2 e = Return j"
    using stringify_heap_ext[of h1 h2 "json_depth j" e j] keep s1 by blast
  then have hd: "JSON_stringify (max (json_depth j) (json_depths js)) h2 e = Return j"
    by (rule stringify_fuel_mono) simp
  from 5(2)[OF j[symmetric] refl js]
  have "list_all2 (\<lambda>e j. JSON_stringify (json_depths js) h2 e = Return j) es' js" .
  then have tl: "list_all2 (\<lambda>e ja. JSON_stringify (max (json_depth j) (json_depths js)) h2 e = Return ja) es' js"
    by (rule list_all2_mono) (erule stringify_fuel_mono, simp)
  from hd tl eq show ?case by simp
next
  case (6 s h)
  then show ?case by (auto simp: alloc_def lookup_def)
qed

section \<open>The index as a function of the serialized value\<close>

lemma index_view_upd:
  "index_view h (idx(p \<mapsto> a)) = (index_view h idx)(p \<mapsto> fileData_of h a)"
  by (rule ext) (simp add: index_view_def)

lemma forEach_index_refines:
  assumes elem: "\<And>a v idx r idx1. JSON_stringify d h a = Return v \<Longrightarrow>
      index d h a idx = (r, idx1) \<Longrightarrow> json_index v (index_view h idx) = (r, index_view h idx1)"
  shows "list_all2 (\<lambda>x y. JSON_stringify d h x = Return y) es js \<Longrightarrow>
      forEach (index d h) es idx = (r, idx1) \<Longrightarrow>
      json_indexes js (index_view h idx) = (r, index_view h idx1)"
proof (induction es js arbitrary: idx rule: list_all2_induct)
  case Nil
  then show ?case by simp
next
  case (Cons x xs y ys)
  obtain r1 i1 where f: "index d h x idx = (r1, i1)" by (cases "index d h x idx")
  from elem[OF Cons.hyps(1) f] have j: "json_index y (index_view h idx) = (r1, index_view h i1)" .
  show ?case
  proof (cases r1)
    case (Throw e)
    with Cons.prems f have "r = Throw e" "idx1 = i1" by simp_all
    with Throw j show ?thesis by simp
  next
    case (Return u)
    with Cons.prems f have "forEach (index d h) xs i1 = (r, idx1)" by simp
    from Cons.IH[OF this] Return j show ?thesis by simp
  qed
qed

lemma index_Suc_Node:
  "lookup h a = Some (Node fd ch) \<Longrightarrow>
   index (Suc d) h a idx =
     (if expandable fd then children_forEach h ch (index d h) (idx(path fd \<mapsto> a))
      else (Return (), idx(path fd \<mapsto> a)))"
  by simp

lemma index_refines:
  "JSON_stringify d h a = Return v \<Longrightarrow> index d h a idx = (r, idx1) \<Longrightarrow>
   json_index v (index_view h idx) = (r, index_view h idx1)"
proof (induction d arbitrary: a v idx r idx1)
  case 0
  then show ?case by simp
next
  case (Suc d)
  show ?case
  proof (cases "lookup h a")
    case None
    with Suc.prems(1) show ?thesis by simp
  next
    case (Some ob)
    show ?thesis
    proof (cases ob)
      case EmptyMarker
      with Some Suc.prems(1) have "v = JEmpty" by simp
      moreover from EmptyMarker Some Suc.prems(2) have "r = Return ()" "idx1 = idx" by simp_all
      ultimately show ?thesis by simp
    next
      case (Array es)
      with Some Suc.prems(1) show ?thesis by simp
    next
      case (Other s)
      with Some Suc.prems(1) have "v = JOther s" by simp
      moreover from Other Some Suc.prems(2) have "r = Throw TypeError" "idx1 = idx" by simp_all
      ultimately show ?thesis by simp
    next
      case (Node fd ch)
      have la: "lookup h a = Some (Node fd ch)" using Some Node by simp
      have fda: "fileData_of h a = Some fd" using la by (simp add: fileData_of_def)
      have vw: "index_view h (idx(path fd \<mapsto> a)) = (index_view h idx)(path fd \<mapsto> Some fd)"
        by (simp add: index_view_upd fda)
      note run = Suc.prems(2)[unfolded index_Suc_Node[OF la]]
      show ?thesis
      proof (cases ch)
        case None
        with la Suc.prems(1) have v: "v = JNode fd None" by simp
        show ?thesis
        proof (cases "expandable fd")
          case True
          with run None have res: "r = Throw TypeError" "idx1 = idx(path fd \<mapsto> a)"
            by (simp_all add: children_forEach_def)
          have "json_index (JNode fd None) (index_view h idx) =
              (Throw TypeError, index_view h (idx(path fd \<mapsto> a)))"
            by (simp add: True vw)
          then show ?thesis by (simp only: res v)
        next
          case False
          with run have res: "r = Return ()" "idx1 = idx(path fd \<mapsto> a)" by simp_all
          have "json_index v (index_view h idx) =
              (Return (), index_view h (idx(path fd \<mapsto> a)))"
            unfolding v by (simp add: False vw)
          then show ?thesis by (simp only: res)
        qed
      next
        case (Some c)
        with la Suc.prems(1) obtain es js where
          c: "lookup h c = Some (Array es)" and
          m: "mapM (JSON_stringify d h) es = Return js" and v: "v = JNode fd (Some js)"
          by (auto split: option.splits obj.splits outcome.splits)
        from m have l2: "list_all2 (\<lambda>x y. JSON_stringify d h x = Return y) es js"
          by (simp add: mapM_Return)
        show ?thesis
        proof (cases "expandable fd")
          case False
          with run have res: "r = Return ()" "idx1 = idx(path fd \<mapsto> a)" by simp_all
          have "json_index v (index_view h idx) =
              (Return (), index_view h (idx(path fd \<mapsto> a)))"
            unfolding v by (simp add: False vw)
          then show ?thesis by (simp only: res)
        next
          case True
          with run Some c
          have "forEach (index d h) es (idx(path fd \<mapsto> a)) = (r, idx1)"
            by (simp add: children_forEach_def)
          from forEach_index_refines[OF Suc.IH l2 this]
          have "json_indexes js (index_view h (idx(path fd \<mapsto> a))) = (r, index_view h idx1)" .
          then show ?thesis unfolding v by (simp add: True vw)
        qed
      qed
    qed
  qed
qed




section \<open>Stale index entries\<close>

text \<open>
  Claim C1 says that after every \<^verbatim>\<open>set\<close> or \<^verbatim>\<open>clear\<close> the path index holds exactly the
  nodes reachable from the root. The code does not keep this: \<^verbatim>\<open>removeFromIndex\<close> returns
  before it deletes anything. On the example tree, \<^verbatim>\<open>clear("")\<close> returns, the root has an
  empty children array afterwards, the index still maps \<^verbatim>\<open>/a\<close> to the detached node, and
  indexing afresh from the root finds the root only.
\<close>

theorem clear_keeps_stale_entry:
  "(case tree_clear 2 [] example_tree example_world of
      (r, t', w') \<Rightarrow>
        r = Return () \<and>
        lookup (heap w') (root t') = Some (Node rootFileData (Some 4)) \<and>
        lookup (heap w') 4 = Some (Array []) \<and>
        pathToNodeIndex t' ''/a'' = Some 1 \<and>
        (case index 2 (heap w') (root t') Map.empty of
           (r2, idx) \<Rightarrow> r2 = Return () \<and> idx [] = Some 3 \<and> idx ''/a'' = None))"
  by code_simp

text \<open>
  Claim C2 says that after \<^verbatim>\<open>clear(p)\<close> a \<^verbatim>\<open>get\<close> of a former child of \<open>p\<close> logs an error
  and returns \<^verbatim>\<open>null\<close>. In the code the lookup still succeeds: after \<^verbatim>\<open>clear("")\<close> on the
  example tree, \<^verbatim>\<open>get("/a")\<close> returns the detached node and logs nothing.
\<close>

theorem get_after_clear_finds_former_child:
  "(case tree_clear 2 [] example_tree example_world of
      (r, t', w') \<Rightarrow>
        r = Return () \<and>
        (case tree_get ''/a'' t' w' of
           (res, w'') \<Rightarrow> res = Object 1 \<and> console w'' = []))"
  by code_simp

text \<open>
  Claim C4 says that a tree reloaded from its serialized root has the same index as the
  tree that was serialized. With the stale entries this fails: the holder loaded from
  storage is collapsed at the root, which also saves it; its index still has \<^verbatim>\<open>/a\<close>, the
  index of the holder loaded from what was saved has not.
\<close>

theorem reload_after_clear_loses_path:
  "(case getLocalStorageStateHolder 2 ''A'' stored_world of
      (Throw e, w) \<Rightarrow> False
    | (Return sh, w) \<Rightarrow>
        (case clearNode 2 [] sh w of
           (r, sh1, w1) \<Rightarrow>
             r = Return () \<and>
             (case getLocalStorageStateHolder 2 ''A'' w1 of
                (Throw e, w2) \<Rightarrow> False
              | (Return sh2, w2) \<Rightarrow>
                  pathToNodeIndex (htree sh1) ''/a'' = Some 1 \<and>
                  pathToNodeIndex (htree sh2) ''/a'' = None \<and>
                  pathToNodeIndex (htree sh1) [] \<noteq> None \<and>
                  pathToNodeIndex (htree sh2) [] \<noteq> None)))"
  by code_simp


section \<open>What the providers deliver\<close>

lemma JsonDataProvider_list_run:
  assumes "pathToNodeIndex t p = Some node"
    and "lookup (heap w) node = Some (Node fd (Some data))"
    and "lookup (heap w) data = Some (Array es)"
    and "Array_sort (sortNodes (heap w)) es = Some sorted_es"
  shows "JsonDataProvider_list p t w = (Return data, w\<lparr>heap := update data (Array sorted_es) (heap w)\<rparr>)"
  using assms by (simp add: JsonDataProvider_list_def tree_get_own)

lemma Array_sort_idem:
  assumes "\<forall>x\<in>set xs. fileData_of h x \<noteq> None"
    and "Array_sort (sortNodes h) xs = Some ys"
    and "\<forall>x\<in>set xs. fileData_of h' x = fileData_of h x"
  shows "Array_sort (sortNodes h') ys = Some ys"
proof -
  let ?f = "\<lambda>a::addr. - weight_of h a"
  let ?f' = "\<lambda>a::addr. - weight_of h' a"
  from assms(1,2) have ys: "ys = sort_key ?f xs" by (simp add: Array_sort_sort_key)
  then have set: "set ys = set xs" by simp
  have all': "\<forall>x\<in>set ys. fileData_of h' x \<noteq> None" using assms(1,3) set by simp
  have m: "map ?f' ys = map ?f ys"
    using assms(3) set by (simp add: weight_of_def node_weight_fileData)
  have "sorted (map ?f ys)" unfolding ys by (rule sorted_sort_key)
  then have "sorted (map ?f' ys)" by (simp only: m)
  then have "sort_key ?f' ys = ys" by (rule sort_key_id_if_sorted)
  with Array_sort_sort_key[OF all'] show ?thesis by simp
qed

text \<open>
  Claim C5: both providers sort the children before they hand them to the callback: nodes
  of type \<^verbatim>\<open>directory\<close> first, then the other expandable nodes, then the nodes that are not
  expandable, each class in its original order. For the static-document provider the
  children are those of an indexed node and are node objects; for the service provider
  they are built from the file data records of the answer. In particular the records
  \<^verbatim>\<open>[text/plain, directory, zip]\<close> are delivered as \<^verbatim>\<open>[directory, zip, text/plain]\<close>.
\<close>

theorem providers_sort_children:
  "(pathToNodeIndex t p = Some node \<and> lookup (heap w) node = Some (Node fd (Some data)) \<and>
    lookup (heap w) data = Some (Array es) \<and> (\<forall>e\<in>set es. fileData_of (heap w) e \<noteq> None) \<longrightarrow>
      (\<exists>w'. JsonDataProvider_list p t w = (Return data, w') \<and>
            lookup (heap w') data =
              Some (Array (filter (node_has (heap w) is_directory) es @
                           filter (node_has (heap w) is_other_expandable) es @
                           filter (node_has (heap w) is_plain) es)))) \<and>
   (\<exists>nodes es' w'. mapToTreeNode fds w = (Return nodes, w') \<and>
      lookup (heap w') nodes = Some (Array es') \<and>
      map (fileData_of (heap w')) es' =
        map Some (filter is_directory fds @ filter is_other_expandable fds @ filter is_plain fds)) \<and>
   (\<exists>nodes es' w'. mapToTreeNode [plainT, dirA, zipZ] w = (Return nodes, w') \<and>
      lookup (heap w') nodes = Some (Array es') \<and>
      map (fileData_of (heap w')) es' = [Some dirA, Some zipZ, Some plainT])"
proof (intro conjI impI)
  assume h: "pathToNodeIndex t p = Some node \<and> lookup (heap w) node = Some (Node fd (Some data)) \<and>
    lookup (heap w) data = Some (Array es) \<and> (\<forall>e\<in>set es. fileData_of (heap w) e \<noteq> None)"
  let ?s = "filter (node_has (heap w) is_directory) es @
            filter (node_has (heap w) is_other_expandable) es @
            filter (node_has (heap w) is_plain) es"
  from h have srt: "Array_sort (sortNodes (heap w)) es = Some ?s"
    by (simp add: Array_sort_classes)
  from h have "data < length (heap w)" by (auto dest: lookup_Some_less)
  then have "lookup (update data (Array ?s) (heap w)) data = Some (Array ?s)"
    by (simp add: lookup_update)
  with JsonDataProvider_list_run[OF _ _ _ srt, of t p node fd data] h
  show "\<exists>w'. JsonDataProvider_list p t w = (Return data, w') \<and> lookup (heap w') data = Some (Array ?s)"
    by simp
next
  show "\<exists>nodes es' w'. mapToTreeNode fds w = (Return nodes, w') \<and>
      lookup (heap w') nodes = Some (Array es') \<and>
      map (fileData_of (heap w')) es' =
        map Some (filter is_directory fds @ filter is_other_expandable fds @ filter is_plain fds)"
    by (rule mapToTreeNode_spec)
next
  from mapToTreeNode_spec[of "[plainT, dirA, zipZ]" w]
  show "\<exists>nodes es' w'. mapToTreeNode [plainT, dirA, zipZ] w = (Return nodes, w') \<and>
      lookup (heap w') nodes = Some (Array es') \<and>
      map (fileData_of (heap w')) es' = [Some dirA, Some zipZ, Some plainT]"
    by (simp add: is_directory_def is_other_expandable_def is_plain_def plainT_def dirA_def zipZ_def)
qed

text \<open>
  The provider tree of the example lists \<^verbatim>\<open>[/t, /a, /z]\<close> at addresses 0, 2 and 4; they are
  delivered as \<^verbatim>\<open>[/a, /z, /t]\<close>.
\<close>

theorem providers_sort_children_witness:
  "pathToNodeIndex sort_tree [] = Some 6 \<and>
   lookup (heap sort_world) 6 = Some (Node rootFileData (Some 5)) \<and>
   lookup (heap sort_world) 5 = Some (Array [0, 2, 4]) \<and>
   fileData_of (heap sort_world) 0 = Some plainT \<and>
   fileData_of (heap sort_world) 2 = Some dirA \<and>
   fileData_of (heap sort_world) 4 = Some zipZ \<and>
   (\<exists>w'. JsonDataProvider_list [] sort_tree sort_world = (Return 5, w') \<and>
         lookup (heap w') 5 = Some (Array [2, 4, 0]))"
  using providers_sort_children[where t = sort_tree and p = "[]" and node = 6 and w = sort_world
      and fd = rootFileData and data = 5 and es = "[0, 2, 4]"]
  by (simp add: sort_tree_def sort_world_def lookup_def fileData_of_def node_has_def
      is_directory_def is_other_expandable_def is_plain_def plainT_def dirA_def zipZ_def)

text \<open>
  Claim C10: \<^verbatim>\<open>list\<close> of the static-document provider sorts the children array of the
  provider's own tree in place and gives that same array object to the callback: the
  node of the tree still refers to the array delivered, the array now holds the sorted
  sequence, and a second \<^verbatim>\<open>list\<close> of the same path finds it sorted, delivers the same array
  and changes nothing.
\<close>

theorem list_sorts_provider_array_in_place:
  assumes "pathToNodeIndex t p = Some node"
    and "lookup (heap w) node = Some (Node fd (Some data))"
    and "lookup (heap w) data = Some (Array es)"
    and "\<forall>e\<in>set es. fileData_of (heap w) e \<noteq> None"
  shows "\<exists>sorted_es w'.
      Array_sort (sortNodes (heap w)) es = Some sorted_es \<and>
      JsonDataProvider_list p t w = (Return data, w') \<and>
      heap w' = update data (Array sorted_es) (heap w) \<and>
      lookup (heap w') node = Some (Node fd (Some data)) \<and>
      lookup (heap w') data = Some (Array sorted_es) \<and>
      JsonDataProvider_list p t w' = (Return data, w')"
proof -
  from assms(4) obtain s where srt: "Array_sort (sortNodes (heap w)) es = Some s"
    by (simp add: Array_sort_sort_key)
  define w' where "w' = w\<lparr>heap := update data (Array s) (heap w)\<rparr>"
  have run: "JsonDataProvider_list p t w = (Return data, w')"
    unfolding w'_def using assms(1-3) srt by (rule JsonDataProvider_list_run)
  have lt: "data < length (heap w)" using assms(3) by (rule lookup_Some_less)
  have ne: "node \<noteq> data" using assms(2,3) by auto
  have ln: "lookup (heap w') node = Some (Node fd (Some data))"
    using assms(2) ne by (simp add: w'_def lookup_update)
  have ld: "lookup (heap w') data = Some (Array s)"
    using lt by (simp add: w'_def lookup_update)
  have same: "\<forall>x\<in>set es. fileData_of (heap w') x = fileData_of (heap w) x"
    by (simp add: w'_def fileData_of_update_Array[OF assms(3)])
  have srt2: "Array_sort (sortNodes (heap w')) s = Some s"
    using assms(4) srt same by (rule Array_sort_idem)
  have "update data (Array s) (heap w') = heap w'"
    by (simp add: w'_def update_def)
  then have "w'\<lparr>heap := update data (Array s) (heap w')\<rparr> = w'" by simp
  with JsonDataProvider_list_run[OF assms(1) ln ld srt2]
  have run2: "JsonDataProvider_list p t w' = (Return data, w')" by simp
  from srt run ln ld run2 show ?thesis by (auto simp: w'_def)
qed

text \<open>In the example the array at address 5 changes from \<^verbatim>\<open>[0, 2, 4]\<close> to \<^verbatim>\<open>[2, 4, 0]\<close>.\<close>

theorem list_sorts_provider_array_in_place_witness:
  "pathToNodeIndex sort_tree [] = Some 6 \<and>
   lookup (heap sort_world) 6 = Some (Node rootFileData (Some 5)) \<and>
   lookup (heap sort_world) 5 = Some (Array [0, 2, 4]) \<and>
   fileData_of (heap sort_world) 0 = Some plainT \<and>
   fileData_of (heap sort_world) 2 = Some dirA \<and>
   fileData_of (heap sort_world) 4 = Some zipZ \<and>
   (\<exists>w'. JsonDataProvider_list [] sort_tree sort_world = (Return 5, w') \<and>
         lookup (heap w') 6 = Some (Node rootFileData (Some 5)) \<and>
         lookup (heap w') 5 = Some (Array [2, 4, 0]) \<and>
         JsonDataProvider_list [] sort_tree w' = (Return 5, w'))"
proof -
  have h: "pathToNodeIndex sort_tree [] = Some 6"
    "lookup (heap sort_world) 6 = Some (Node rootFileData (Some 5))"
    "lookup (heap sort_world) 5 = Some (Array [0, 2, 4])"
    "\<forall>e\<in>set [0, 2, 4]. fileData_of (heap sort_world) e \<noteq> None"
    by (simp_all add: sort_tree_def sort_world_def lookup_def fileData_of_def)
  have s: "Array_sort (sortNodes (heap sort_world)) [0, 2, 4] = Some [2, 4, 0]"
    by (simp add: sort_world_def sortNodes_def node_weight_def lookup_def weight_def
        plainT_def dirA_def zipZ_def)
  have f: "fileData_of (heap sort_world) 0 = Some plainT"
    "fileData_of (heap sort_world) 2 = Some dirA"
    "fileData_of (heap sort_world) 4 = Some zipZ"
    by (simp_all add: sort_world_def lookup_def fileData_of_def)
  from list_sorts_provider_array_in_place[OF h] s h f show ?thesis by auto
qed

section \<open>Replacing children twice\<close>

lemma removeFromIndex_noop:
  "removeFromIndex d h a idx = (if d = 0 then (Throw RangeError, idx) else (Return (), idx))"
  by (cases d) (simp_all add: isEmptyNode_function_is_truthy_def)

lemma forEach_removeFromIndex:
  "forEach (removeFromIndex d h) es idx =
     (if es = [] \<or> 0 < d then (Return (), idx) else (Throw RangeError, idx))"
  by (induction es) (auto simp: removeFromIndex_noop)

text \<open>What a call of \<^verbatim>\<open>set\<close> does on an indexed node.\<close>

lemma tree_set_run:
  assumes "pathToNodeIndex t p = Some P"
    and "lookup (heap w) P = Some (Node fd ch)"
    and "expandable fd \<longrightarrow> (\<exists>c old. ch = Some c \<and> lookup (heap w) c = Some (Array old) \<and> (old = [] \<or> 0 < d))"
    and "lookup (update P (Node fd (Some n)) (heap w)) n = Some (Array es)"
    and "forEach (index d (update P (Node fd (Some n)) (heap w))) es (pathToNodeIndex t) = (Return (), idx2)"
  shows "tree_set d p n t w =
     (Return P, t\<lparr>pathToNodeIndex := idx2\<rparr>, w\<lparr>heap := update P (Node fd (Some n)) (heap w)\<rparr>)"
proof -
  have rm: "(if expandable fd
             then children_forEach (heap w) ch (removeFromIndex d (heap w)) (pathToNodeIndex t)
             else (Return (), pathToNodeIndex t)) = (Return (), pathToNodeIndex t)"
    using assms(3) by (auto simp: children_forEach_def forEach_removeFromIndex)
  show ?thesis
    using assms(1,2,4,5)
    by (simp add: tree_set_def tree_get_own rm Let_def children_forEach_def del: index.simps)
qed

lemma index_view_empty: "index_view h Map.empty = Map.empty"
  by (rule ext) (simp add: index_view_def)

text \<open>
  Claim C3 says that \<^verbatim>\<open>set\<close>, called twice on the same parent with structurally equal
  arrays, leaves the index a single call would leave, with no duplicate and no stale
  entry. The code leaves a stale entry: \<^verbatim>\<open>set\<close> calls \<^verbatim>\<open>removeFromIndex\<close> on the old
  children, which returns before it deletes anything. On the example tree, whose root
  lists \<^verbatim>\<open>/a\<close>, \<^verbatim>\<open>set("", [/b])\<close> is called with the array at 6 and then with the
  structurally equal array at 9. Both calls return the root, the root lists the node
  \<^verbatim>\<open>/b\<close> at 8 afterwards, and the index holds that node under \<^verbatim>\<open>/b\<close>; but after the first
  call and after the second it still maps \<^verbatim>\<open>/a\<close> to the detached node at 1, while
  indexing afresh from the root finds \<^verbatim>\<open>""\<close> and \<^verbatim>\<open>/b\<close> only.
\<close>

theorem set_twice_keeps_stale_entry:
  "(case tree_set 2 [] 6 example_tree twice_world of
      (r1, t1, w1) \<Rightarrow>
        (case tree_set 2 [] 9 t1 w1 of
           (r2, t2, w2) \<Rightarrow>
             r1 = Return 3 \<and> r2 = Return 3 \<and>
             lookup (heap w2) 3 = Some (Node rootFileData (Some 9)) \<and>
             lookup (heap w2) 9 = Some (Array [8]) \<and>
             pathToNodeIndex t1 ''/a'' = Some 1 \<and> pathToNodeIndex t1 ''/b'' = Some 5 \<and>
             pathToNodeIndex t2 ''/a'' = Some 1 \<and> pathToNodeIndex t2 ''/b'' = Some 8 \<and>
             (case tree_get ''/a'' t2 w2 of (res, w3) \<Rightarrow> res = Object 1 \<and> console w3 = []) \<and>
             (case index 2 (heap w2) (root t2) Map.empty of
                (r3, idx) \<Rightarrow>
                  r3 = Return () \<and> idx [] = Some 3 \<and> idx ''/b'' = Some 8 \<and> idx ''/a'' = None)))"
  by code_simp

section \<open>Lookup\<close>









section \<open>Operations that fail\<close>













section \<open>Initialization of the state holder\<close>

lemma index_root_fresh:
  assumes "lookup h r = Some (Node rootFileData (Some arr))" and "lookup h arr = Some (Array [])"
  shows "index (Suc d) h r Map.empty = (Return (), [[] \<mapsto> r])"
  using assms by (simp add: children_forEach_def rootFileData_def)

lemma holder_unfold:
  assumes "key = ''ru.kozobrodov.fileTree$'' @ ident"
  shows "getLocalStorageStateHolder d ident w =
     (case localStorage w key of
        Some stateString \<Rightarrow>
          (case JSON_parse stateString w of
             (Throw e, w1) \<Rightarrow> (Throw e, w1)
           | (Return r, w1) \<Rightarrow>
               (case getIndexedFileDataTree d r w1 of
                  Throw e \<Rightarrow> (Throw e, w1)
                | Return t \<Rightarrow> (Return \<lparr>storageKey = key, htree = t\<rparr>, w1)))
      | None \<Rightarrow>
          (case initState d key w of
             (Throw e, w1) \<Rightarrow> (Throw e, w1)
           | (Return r, w1) \<Rightarrow>
               (case getIndexedFileDataTree d r w1 of
                  Throw e \<Rightarrow> (Throw e, w1)
                | Return t \<Rightarrow> (Return \<lparr>storageKey = key, htree = t\<rparr>, w1))))"
  unfolding assms getLocalStorageStateHolder_def Let_def ..

lemma holder_init_absent:
  assumes "localStorage w key = None" and "0 < d" and key: "key = ''ru.kozobrodov.fileTree$'' @ ident"
  shows "getLocalStorageStateHolder d ident w =
        (Return \<lparr>storageKey = key,
                 htree = \<lparr>root = Suc (length (heap w)),
                          pathToNodeIndex = [[] \<mapsto> Suc (length (heap w))]\<rparr>\<rparr>,
         w\<lparr>heap := heap w @ [Array [], Node rootFileData (Some (length (heap w)))],
           localStorage := (localStorage w)(key \<mapsto> Json (JNode rootFileData (Some [])))\<rparr>)"
proof -
  from assms(2) obtain k where d: "d = Suc k" by (cases d) auto
  let ?arr = "length (heap w)"
  let ?h2 = "heap w @ [Array [], Node rootFileData (Some ?arr)]"
  have l1: "lookup ?h2 (Suc ?arr) = Some (Node rootFileData (Some ?arr))"
    by (simp add: lookup_def nth_append)
  have l2: "lookup ?h2 ?arr = Some (Array [])"
    by (simp add: lookup_def nth_append)
  have ser: "JSON_stringify d ?h2 (Suc ?arr) = Return (JNode rootFileData (Some []))"
    unfolding d using l1 l2 by simp
  have idx: "index d ?h2 (Suc ?arr) Map.empty = (Return (), [[] \<mapsto> Suc ?arr])"
    unfolding d using l1 l2 by (rule index_root_fresh)
  have init: "initState d key w =
      (Return (Suc ?arr), w\<lparr>heap := ?h2, localStorage := (localStorage w)(key \<mapsto>
             Json (JNode rootFileData (Some [])))\<rparr>)"
    using ser by (simp add: initState_def alloc_def)
  show ?thesis
    unfolding holder_unfold[OF key] using assms(1) init idx
    by (simp add: getIndexedFileDataTree_def)
qed

lemma json_index_indexable:
  "fst (json_index v m) = (if indexable v then Return () else Throw TypeError)"
  "fst (json_indexes js m) = (if indexables js then Return () else Throw TypeError)"
proof (induction v and js arbitrary: m and m rule: json_depth_json_depths.induct)
  case (5 j js)
  obtain r1 m1 where j: "json_index j m = (r1, m1)" by (cases "json_index j m")
  with 5(1)[of m] have r1: "r1 = (if indexable j then Return () else Throw TypeError)" by simp
  show ?case
  proof (cases "indexable j")
    case True
    with r1 j have "json_indexes (j # js) m = json_indexes js m1" by simp
    with True 5(2)[of m1] show ?thesis by simp
  next
    case False
    with r1 j show ?thesis by simp
  qed
qed simp_all

lemma holder_init_stored:
  assumes st: "localStorage w key = Some (Json v)" and dep: "json_depth v \<le> d"
    and key: "key = ''ru.kozobrodov.fileTree$'' @ ident"
  shows "\<exists>r h' idx. alloc_json v (heap w) = (r, h') \<and> JSON_stringify d h' r = Return v \<and>
         json_index v Map.empty =
           ((if indexable v then Return () else Throw TypeError), index_view h' idx) \<and>
         getLocalStorageStateHolder d ident w =
           (if indexable v
            then (Return \<lparr>storageKey = key, htree = \<lparr>root = r, pathToNodeIndex = idx\<rparr>\<rparr>,
                  w\<lparr>heap := h'\<rparr>)
            else (Throw TypeError, w\<lparr>heap := h'\<rparr>))"
proof -
  obtain r h' where al: "alloc_json v (heap w) = (r, h')" by (cases "alloc_json v (heap w)")
  from alloc_json_stringify(1)[OF al] dep have ser: "JSON_stringify d h' r = Return v"
    by (rule stringify_fuel_mono)
  obtain res idx where run: "index d h' r Map.empty = (res, idx)"
    by (cases "index d h' r Map.empty")
  from index_refines[OF ser run]
  have ji: "json_index v Map.empty = (res, index_view h' idx)" by (simp add: index_view_empty)
  with json_index_indexable(1)[of v Map.empty]
  have res: "res = (if indexable v then Return () else Throw TypeError)" by simp
  have parse: "JSON_parse (Json v) w = (Return r, w\<lparr>heap := h'\<rparr>)"
    using al by (simp add: JSON_parse_def)
  have cs: "getLocalStorageStateHolder d ident w =
           (if indexable v
            then (Return \<lparr>storageKey = key, htree = \<lparr>root = r, pathToNodeIndex = idx\<rparr>\<rparr>,
                  w\<lparr>heap := h'\<rparr>)
            else (Throw TypeError, w\<lparr>heap := h'\<rparr>))"
    unfolding holder_unfold[OF key] using st parse run res
    by (simp add: getIndexedFileDataTree_def)
  from ji res have ji': "json_index v Map.empty =
      ((if indexable v then Return () else Throw TypeError), index_view h' idx)" by simp
  show ?thesis
    by (rule exI[of _ r], rule exI[of _ h'], rule exI[of _ idx], intro conjI al ser ji' cs)
qed

lemma holder_init_corrupt:
  assumes "localStorage w key = Some Malformed" and key: "key = ''ru.kozobrodov.fileTree$'' @ ident"
  shows "getLocalStorageStateHolder d ident w = (Throw SyntaxError, w)"
  unfolding holder_unfold[OF key] using assms(1) by (simp add: JSON_parse_def)

text \<open>
  Claim C6 says that a stored state that is absent or corrupt is replaced by a fresh
  default root without an error. For a corrupt one this is false: \<^verbatim>\<open>JSON.parse\<close> is called
  on whatever string is stored, outside any \<^verbatim>\<open>try\<close>, so its SyntaxError reaches the caller;
  no root is built and nothing is written to the storage.
\<close>

theorem corrupt_state_throws:
  "localStorage corrupt_world ''ru.kozobrodov.fileTree$A'' = Some Malformed \<and>
   getLocalStorageStateHolder 2 ''A'' corrupt_world = (Throw SyntaxError, corrupt_world)"
  by (simp add: getLocalStorageStateHolder_def JSON_parse_def corrupt_world_def)

text \<open>
  Claim C6, amended. For the tree identifier \<open>ident\<close>: if nothing is stored under its key, a
  fresh root (the directory with path \<^verbatim>\<open>""\<close> and an empty children array) is built, stored
  under the key at once and indexed, and the holder is returned. If JSON text is stored,
  new objects are built from its value \<open>v\<close>, which serialize to \<open>v\<close> again, and the storage
  is not written. If \<open>v\<close> is a tree of nodes and markers in which every expandable node
  that indexing comes to has a children array, the holder is returned, its root being
  the new object and its index holding the paths and file data that indexing \<open>v\<close> gives.
  If \<open>v\<close> is not such a tree, because it is a value that is not a node (\<^verbatim>\<open>null\<close>, a number, a
  string, a boolean, an array, an object without file data such as \<^verbatim>\<open>{}\<close>) or because
  indexing comes to such a value or to an expandable node without children,
  initialization throws a TypeError and no holder is returned. If the stored string is
  not JSON, initialization throws a SyntaxError and leaves store and storage as they
  were. In neither of the last two cases is a fresh root built or stored. (Stored
  objects whose file data or children are not of the types of the data model are not
  covered. The call depth \<open>d\<close> is assumed to suffice for the depth of \<open>v\<close>.)
\<close>

theorem state_holder_initialization:
  "(localStorage w (''ru.kozobrodov.fileTree$'' @ ident) = None \<and> 0 < d \<longrightarrow>
      getLocalStorageStateHolder d ident w =
        (Return \<lparr>storageKey = ''ru.kozobrodov.fileTree$'' @ ident,
                 htree = \<lparr>root = Suc (length (heap w)),
                          pathToNodeIndex = [[] \<mapsto> Suc (length (heap w))]\<rparr>\<rparr>,
         w\<lparr>heap := heap w @ [Array [], Node rootFileData (Some (length (heap w)))],
           localStorage := (localStorage w)(''ru.kozobrodov.fileTree$'' @ ident \<mapsto>
             Json (JNode rootFileData (Some [])))\<rparr>)) \<and>
   (localStorage w (''ru.kozobrodov.fileTree$'' @ ident) = Some (Json v) \<and> json_depth v \<le> d \<longrightarrow>
      (\<exists>r h' idx. alloc_json v (heap w) = (r, h') \<and> JSON_stringify d h' r = Return v \<and>
         json_index v Map.empty =
           ((if indexable v then Return () else Throw TypeError), index_view h' idx) \<and>
         getLocalStorageStateHolder d ident w =
           (if indexable v
            then (Return \<lparr>storageKey = ''ru.kozobrodov.fileTree$'' @ ident,
                          htree = \<lparr>root = r, pathToNodeIndex = idx\<rparr>\<rparr>,
                  w\<lparr>heap := h'\<rparr>)
            else (Throw TypeError, w\<lparr>heap := h'\<rparr>)))) \<and>
   (localStorage w (''ru.kozobrodov.fileTree$'' @ ident) = Some Malformed \<longrightarrow>
      getLocalStorageStateHolder d ident w = (Throw SyntaxError, w))"
proof -
  define key where "key = ''ru.kozobrodov.fileTree$'' @ ident"
  show ?thesis
    unfolding key_def[symmetric]
    using holder_init_absent[OF _ _ key_def, of w d] holder_init_stored[OF _ _ key_def, of w v d]
      holder_init_corrupt[OF _ key_def, of w d]
    by blast
qed

text \<open>
  The cases: nothing stored; the example tree stored; \<^verbatim>\<open>null\<close> stored; a root without
  children stored; a string that is not JSON stored.
\<close>

theorem state_holder_initialization_witness:
  "localStorage fresh_world ''ru.kozobrodov.fileTree$A'' = None \<and>
   getLocalStorageStateHolder 2 ''A'' fresh_world =
     (Return \<lparr>storageKey = ''ru.kozobrodov.fileTree$A'',
              htree = \<lparr>root = 1, pathToNodeIndex = [[] \<mapsto> 1]\<rparr>\<rparr>,
      fresh_world\<lparr>heap := [Array [], Node rootFileData (Some 0)],
        localStorage := [''ru.kozobrodov.fileTree$A'' \<mapsto> Json (JNode rootFileData (Some []))]\<rparr>) \<and>
   localStorage stored_world ''ru.kozobrodov.fileTree$A'' = Some (Json (JNode rootFileData (Some [JNode dirA (Some [])]))) \<and>
   json_depth (JNode rootFileData (Some [JNode dirA (Some [])])) = 2 \<and> indexable (JNode rootFileData (Some [JNode dirA (Some [])])) = True \<and>
   (\<exists>r h' idx. alloc_json (JNode rootFileData (Some [JNode dirA (Some [])])) (heap stored_world) = (r, h') \<and>
      JSON_stringify 2 h' r = Return (JNode rootFileData (Some [JNode dirA (Some [])])) \<and>
      json_index (JNode rootFileData (Some [JNode dirA (Some [])])) Map.empty = (Return (), index_view h' idx) \<and>
      getLocalStorageStateHolder 2 ''A'' stored_world =
        (Return \<lparr>storageKey = ''ru.kozobrodov.fileTree$A'', htree = \<lparr>root = r, pathToNodeIndex = idx\<rparr>\<rparr>,
         stored_world\<lparr>heap := h'\<rparr>)) \<and>
   localStorage null_world ''ru.kozobrodov.fileTree$A'' = Some (Json (JOther ''null'')) \<and>
   indexable (JOther ''null'') = False \<and>
   getLocalStorageStateHolder 2 ''A'' null_world =
     (Throw TypeError, null_world\<lparr>heap := [Other ''null'']\<rparr>) \<and>
   localStorage childless_world ''ru.kozobrodov.fileTree$A'' = Some (Json (JNode rootFileData None)) \<and>
   indexable (JNode rootFileData None) = False \<and>
   getLocalStorageStateHolder 2 ''A'' childless_world =
     (Throw TypeError, childless_world\<lparr>heap := [Node rootFileData None]\<rparr>) \<and>
   localStorage corrupt_world ''ru.kozobrodov.fileTree$A'' = Some Malformed \<and>
   getLocalStorageStateHolder 2 ''A'' corrupt_world = (Throw SyntaxError, corrupt_world)"
proof -
  have key: "''ru.kozobrodov.fileTree$'' @ ''A'' = ''ru.kozobrodov.fileTree$A''" by simp
  have a: "localStorage fresh_world ''ru.kozobrodov.fileTree$A'' = None \<and> 0 < (2::nat)"
    by (simp add: fresh_world_def)
  have b: "localStorage stored_world ''ru.kozobrodov.fileTree$A'' = Some (Json (JNode rootFileData (Some [JNode dirA (Some [])]))) \<and> json_depth (JNode rootFileData (Some [JNode dirA (Some [])])) \<le> 2"
    by (simp add: stored_world_def)
  have b': "json_depth (JNode rootFileData (Some [JNode dirA (Some [])])) = 2" "indexable (JNode rootFileData (Some [JNode dirA (Some [])])) = True"
    by (simp_all add: rootFileData_def dirA_def)
  have c: "localStorage corrupt_world ''ru.kozobrodov.fileTree$A'' = Some Malformed"
    by (simp add: corrupt_world_def)
  have n: "localStorage null_world ''ru.kozobrodov.fileTree$A'' = Some (Json (JOther ''null'')) \<and>
      json_depth (JOther ''null'') \<le> 2"
    by (simp add: null_world_def)
  have n': "indexable (JOther ''null'') = False" by simp
  have l: "localStorage childless_world ''ru.kozobrodov.fileTree$A'' = Some (Json (JNode rootFileData None)) \<and>
      json_depth (JNode rootFileData None) \<le> 2"
    by (simp add: childless_world_def)
  have l': "indexable (JNode rootFileData None) = False" by (simp add: rootFileData_def)
  from state_holder_initialization[where w = fresh_world and ident = "''A''" and d = 2,
      unfolded key] a
  have 1: "getLocalStorageStateHolder 2 ''A'' fresh_world =
     (Return \<lparr>storageKey = ''ru.kozobrodov.fileTree$A'',
              htree = \<lparr>root = 1, pathToNodeIndex = [[] \<mapsto> 1]\<rparr>\<rparr>,
      fresh_world\<lparr>heap := [Array [], Node rootFileData (Some 0)],
        localStorage := [''ru.kozobrodov.fileTree$A'' \<mapsto> Json (JNode rootFileData (Some []))]\<rparr>)"
    by (simp add: fresh_world_def)
  from state_holder_initialization[where w = stored_world and ident = "''A''" and d = 2
      and v = "JNode rootFileData (Some [JNode dirA (Some [])])", unfolded key] b
  have "\<exists>r h' idx. alloc_json (JNode rootFileData (Some [JNode dirA (Some [])])) (heap stored_world) = (r, h') \<and>
      JSON_stringify 2 h' r = Return (JNode rootFileData (Some [JNode dirA (Some [])])) \<and>
      json_index (JNode rootFileData (Some [JNode dirA (Some [])])) Map.empty =
        ((if indexable (JNode rootFileData (Some [JNode dirA (Some [])])) then Return () else Throw TypeError), index_view h' idx) \<and>
      getLocalStorageStateHolder 2 ''A'' stored_world =
        (if indexable (JNode rootFileData (Some [JNode dirA (Some [])]))
         then (Return \<lparr>storageKey = ''ru.kozobrodov.fileTree$A'', htree = \<lparr>root = r, pathToNodeIndex = idx\<rparr>\<rparr>,
               stored_world\<lparr>heap := h'\<rparr>)
         else (Throw TypeError, stored_world\<lparr>heap := h'\<rparr>))"
    by blast
  then have 2: "\<exists>r h' idx. alloc_json (JNode rootFileData (Some [JNode dirA (Some [])])) (heap stored_world) = (r, h') \<and>
      JSON_stringify 2 h' r = Return (JNode rootFileData (Some [JNode dirA (Some [])])) \<and>
      json_index (JNode rootFileData (Some [JNode dirA (Some [])])) Map.empty = (Return (), index_view h' idx) \<and>
      getLocalStorageStateHolder 2 ''A'' stored_world =
        (Return \<lparr>storageKey = ''ru.kozobrodov.fileTree$A'', htree = \<lparr>root = r, pathToNodeIndex = idx\<rparr>\<rparr>,
         stored_world\<lparr>heap := h'\<rparr>)"
    unfolding b'(2) if_True .
  from state_holder_initialization[where w = corrupt_world and ident = "''A''" and d = 2,
      unfolded key] c
  have 3: "getLocalStorageStateHolder 2 ''A'' corrupt_world = (Throw SyntaxError, corrupt_world)"
    by simp
  from state_holder_initialization[where w = null_world and ident = "''A''" and d = 2
      and v = "JOther ''null''", unfolded key] n
  have "\<exists>r h' idx. alloc_json (JOther ''null'') (heap null_world) = (r, h') \<and>
      JSON_stringify 2 h' r = Return (JOther ''null'') \<and>
      json_index (JOther ''null'') Map.empty =
        ((if indexable (JOther ''null'') then Return () else Throw TypeError), index_view h' idx) \<and>
      getLocalStorageStateHolder 2 ''A'' null_world =
        (if indexable (JOther ''null'')
         then (Return \<lparr>storageKey = ''ru.kozobrodov.fileTree$A'', htree = \<lparr>root = r, pathToNodeIndex = idx\<rparr>\<rparr>,
               null_world\<lparr>heap := h'\<rparr>)
         else (Throw TypeError, null_world\<lparr>heap := h'\<rparr>))"
    by blast
  then have 4: "getLocalStorageStateHolder 2 ''A'' null_world =
     (Throw TypeError, null_world\<lparr>heap := [Other ''null'']\<rparr>)"
    by (auto simp: alloc_def null_world_def)
  from state_holder_initialization[where w = childless_world and ident = "''A''" and d = 2
      and v = "JNode rootFileData None", unfolded key] l
  have "\<exists>r h' idx. alloc_json (JNode rootFileData None) (heap childless_world) = (r, h') \<and>
      JSON_stringify 2 h' r = Return (JNode rootFileData None) \<and>
      json_index (JNode rootFileData None) Map.empty =
        ((if indexable (JNode rootFileData None) then Return () else Throw TypeError),
         index_view h' idx) \<and>
      getLocalStorageStateHolder 2 ''A'' childless_world =
        (if indexable (JNode rootFileData None)
         then (Return \<lparr>storageKey = ''ru.kozobrodov.fileTree$A'', htree = \<lparr>root = r, pathToNodeIndex = idx\<rparr>\<rparr>,
               childless_world\<lparr>heap := h'\<rparr>)
         else (Throw TypeError, childless_world\<lparr>heap := h'\<rparr>))"
    by blast
  then have 5: "getLocalStorageStateHolder 2 ''A'' childless_world =
     (Throw TypeError, childless_world\<lparr>heap := [Node rootFileData None]\<rparr>)"
    unfolding l' if_False by (auto simp: alloc_def childless_world_def)
  from a b b' c n n' l l' 1 2 3 4 5 show ?thesis by simp
qed

section \<open>Expanding an empty directory\<close>

lemma lookup_snoc: "lookup (h @ [x]) a = (if a = length h then Some x else lookup h a)"
  by (auto simp: lookup_def nth_append)

lemma length_update: "length (update a x h) = length h"
  by (simp add: update_def)

lemma mapM_markers:
  "\<forall>x\<in>set es. lookup h x = Some EmptyMarker \<Longrightarrow>
   mapM (JSON_stringify (Suc d) h) es = Return (map (\<lambda>x. JEmpty) es)"
  by (induction es) simp_all

lemma mapM_all_Return: "\<forall>x\<in>set xs. \<exists>y. f x = Return y \<Longrightarrow> \<exists>ys. mapM f xs = Return ys"
proof (induction xs)
  case Nil
  then show ?case by simp
next
  case (Cons x xs)
  then obtain y ys where "f x = Return y" "mapM f xs = Return ys" by auto
  then show ?case by simp
qed

text \<open>
  Serializing still succeeds, with one more level of depth, after nodes were given
  children arrays that hold markers only and empty arrays were given one marker.
\<close>

lemma stringify_marker_sim:
  assumes E: "\<And>a. lookup h a = Some EmptyMarker \<Longrightarrow> lookup h' a = Some EmptyMarker"
    and N: "\<And>a fd ch. lookup h a = Some (Node fd ch) \<Longrightarrow>
        lookup h' a = Some (Node fd ch) \<or>
        (\<exists>c es. lookup h' a = Some (Node fd (Some c)) \<and> lookup h' c = Some (Array es) \<and>
                (\<forall>x\<in>set es. lookup h' x = Some EmptyMarker))"
    and A: "\<And>a es. lookup h a = Some (Array es) \<Longrightarrow>
        lookup h' a = Some (Array es) \<or>
        (es = [] \<and> (\<exists>x. lookup h' a = Some (Array [x]) \<and> lookup h' x = Some EmptyMarker))"
    and O: "\<And>a s. lookup h a = Some (Other s) \<Longrightarrow> lookup h' a = Some (Other s)"
  shows "JSON_stringify d h a = Return v \<Longrightarrow> \<exists>v'. JSON_stringify (Suc d) h' a = Return v'"
proof (induction d arbitrary: a v)
  case 0
  then show ?case by simp
next
  case (Suc d)
  have markers: "\<And>fd c es. lookup h' a = Some (Node fd (Some c)) \<Longrightarrow> lookup h' c = Some (Array es) \<Longrightarrow>
      \<forall>x\<in>set es. lookup h' x = Some EmptyMarker \<Longrightarrow> \<exists>v'. JSON_stringify (Suc (Suc d)) h' a = Return v'"
  proof -
    fix fd c es
    assume 1: "lookup h' a = Some (Node fd (Some c))" and 2: "lookup h' c = Some (Array es)"
      and 3: "\<forall>x\<in>set es. lookup h' x = Some EmptyMarker"
    from mapM_markers[OF 3, of d] 1 2
    show "\<exists>v'. JSON_stringify (Suc (Suc d)) h' a = Return v'" by simp
  qed
  show ?case
  proof (cases "lookup h a")
    case None
    with Suc.prems show ?thesis by simp
  next
    case (Some ob)
    show ?thesis
    proof (cases ob)
      case EmptyMarker
      with Some have "lookup h' a = Some EmptyMarker" by (simp add: E)
      then show ?thesis by simp
    next
      case (Array es)
      with Some Suc.prems show ?thesis by simp
    next
      case (Other s)
      with Some have "lookup h' a = Some (Other s)" by (simp add: O)
      then show ?thesis by simp
    next
      case (Node fd ch)
      have la: "lookup h a = Some (Node fd ch)" using Some Node by simp
      from N[OF la] show ?thesis
      proof
        assume la': "lookup h' a = Some (Node fd ch)"
        show ?thesis
        proof (cases ch)
          case None
          with la' show ?thesis by simp
        next
          case Some2: (Some c)
          with la Suc.prems obtain es js where
            c: "lookup h c = Some (Array es)" and
            m: "mapM (JSON_stringify d h) es = Return js"
            by (auto split: option.splits obj.splits outcome.splits)
          from A[OF c] show ?thesis
          proof
            assume c': "lookup h' c = Some (Array es)"
            from m have l2: "list_all2 (\<lambda>x y. JSON_stringify d h x = Return y) es js"
              by (simp add: mapM_Return)
            have "\<forall>x\<in>set es. \<exists>y. JSON_stringify (Suc d) h' x = Return y"
            proof
              fix x assume "x \<in> set es"
              with l2 obtain y where "JSON_stringify d h x = Return y"
                by (auto simp: list_all2_conv_all_nth in_set_conv_nth)
              then show "\<exists>y. JSON_stringify (Suc d) h' x = Return y" by (rule Suc.IH)
            qed
            then have "\<exists>ys. mapM (JSON_stringify (Suc d) h') es = Return ys"
              by (rule mapM_all_Return)
            then obtain ys where "mapM (JSON_stringify (Suc d) h') es = Return ys" by blast
            with la' Some2 c' show ?thesis by simp
          next
            assume "es = [] \<and> (\<exists>x. lookup h' c = Some (Array [x]) \<and> lookup h' x = Some EmptyMarker)"
            then obtain x where cx: "lookup h' c = Some (Array [x])" and x: "lookup h' x = Some EmptyMarker"
              by blast
            from x have allm: "\<forall>y\<in>set [x]. lookup h' y = Some EmptyMarker" by simp
            from la' Some2 have "lookup h' a = Some (Node fd (Some c))" by simp
            then show ?thesis using cx allm by (rule markers)
          qed
        qed
      next
        assume "\<exists>c es. lookup h' a = Some (Node fd (Some c)) \<and> lookup h' c = Some (Array es) \<and>
                (\<forall>x\<in>set es. lookup h' x = Some EmptyMarker)"
        then show ?thesis using markers by blast
      qed
    qed
  qed
qed

lemma tree_clear_run:
  assumes "pathToNodeIndex t p = Some P"
    and "lookup (heap w) P = Some (Node fd ch)"
    and "expandable fd \<longrightarrow> (\<exists>c old. ch = Some c \<and> lookup (heap w) c = Some (Array old) \<and> (old = [] \<or> 0 < d))"
  shows "tree_clear d p t w =
     (Return (), t, w\<lparr>heap := update P (Node fd (Some (length (heap w)))) (heap w @ [Array []])\<rparr>)"
proof -
  have rm: "(if expandable fd
             then children_forEach (heap w) ch (removeFromIndex d (heap w)) (pathToNodeIndex t)
             else (Return (), pathToNodeIndex t)) = (Return (), pathToNodeIndex t)"
    using assms(3) by (auto simp: children_forEach_def forEach_removeFromIndex)
  show ?thesis
    using assms(1,2) by (simp add: tree_clear_def tree_get_own rm alloc_def)
qed

lemma index_marker: "0 < d \<Longrightarrow> lookup h e = Some EmptyMarker \<Longrightarrow> index d h e idx = (Return (), idx)"
  by (cases d) simp_all

text \<open>
  Claim C8: when \<^verbatim>\<open>list\<close> delivers an empty array for the path \<open>p\<close> of an indexed node
  with a children array, in a state whose tree can be serialized, the expansion returns
  the node with exactly one child, a marker; holder and index are as before, so the marker
  is not indexed. Collapsing \<open>p\<close> afterwards returns without error and leaves the node with
  an empty children array. Indexing never inserts a marker: an entry that refers to a marker
  after \<^verbatim>\<open>index\<close> ran was there before. (The bound \<open>d\<close> of both calls exceeds the depth
  \<open>d0\<close> at which the tree could be serialized before.)
\<close>

theorem empty_listing_attaches_one_marker:
  assumes data: "lookup (heap w) data = Some (Array [])"
    and idx: "pathToNodeIndex (htree sh) p = Some P"
    and node: "lookup (heap w) P = Some (Node fd (Some ch))"
    and kids: "lookup (heap w) ch = Some (Array es)"
    and ser: "JSON_stringify d0 (heap w) (root (htree sh)) = Return v"
    and dep: "d0 < d"
  shows "(\<exists>w1 c e w2 c2.
      expand_callback d p data sh w = (Return P, sh, w1) \<and>
      lookup (heap w1) P = Some (Node fd (Some c)) \<and>
      lookup (heap w1) c = Some (Array [e]) \<and>
      lookup (heap w1) e = Some EmptyMarker \<and>
      collapse d p sh w1 = (Return (), sh, w2) \<and>
      lookup (heap w2) P = Some (Node fd (Some c2)) \<and>
      lookup (heap w2) c2 = Some (Array [])) \<and>
    (\<forall>k h a i r i' q x. index k h a i = (r, i') \<and> i' q = Some x \<and> lookup h x = Some EmptyMarker
       \<longrightarrow> i q = Some x)"
proof
  let ?h0 = "heap w"
  let ?L = "length ?h0"
  let ?t = "htree sh"
  define hA where "hA = update data (Array [?L]) (?h0 @ [EmptyMarker])"
  define hB where "hB = update (Suc ?L) (Array [?L]) (hA @ [Array []])"
  define hC where "hC = update P (Node fd (Some (Suc ?L))) hB"
  define hE where "hE = update P (Node fd (Some (Suc (Suc ?L)))) (hC @ [Array []])"
  have lt: "data < ?L" "P < ?L" "ch < ?L"
    using data node kids by (auto dest: lookup_Some_less)
  have ne: "data \<noteq> P" "ch \<noteq> P" using data node kids by auto
  have dpos: "0 < d" using dep by simp
  have len: "length hA = Suc ?L" "length hB = Suc (Suc ?L)" "length hC = Suc (Suc ?L)"
    by (simp_all add: hA_def hB_def hC_def length_update)
  note lk = lookup_update lookup_snoc length_update
  \<comment> \<open>the store after the expansion\<close>
  have hC_P: "lookup hC P = Some (Node fd (Some (Suc ?L)))"
    and hC_S: "lookup hC (Suc ?L) = Some (Array [?L])"
    and hC_data: "lookup hC data = Some (Array [?L])"
    and hC_L: "lookup hC ?L = Some EmptyMarker"
    using lt ne by (auto simp: hC_def hB_def hA_def lk)
  have hC_other: "\<And>a. a < ?L \<Longrightarrow> a \<noteq> P \<Longrightarrow> a \<noteq> data \<Longrightarrow> lookup hC a = lookup ?h0 a"
    by (auto simp: hC_def hB_def hA_def lk)
  have hC_kids: "\<exists>c es. lookup hC P = Some (Node fd (Some c)) \<and> lookup hC c = Some (Array es) \<and>
      (\<forall>x\<in>set es. lookup hC x = Some EmptyMarker)"
    using hC_P hC_S hC_L by simp
  have lB: "lookup hB P = Some (Node fd (Some ch))"
    "\<exists>old. lookup hB ch = Some (Array old)"
    using lt ne node kids by (auto simp: hB_def hA_def lk)
  \<comment> \<open>the store after the collapse\<close>
  have hE_P: "lookup hE P = Some (Node fd (Some (Suc (Suc ?L))))"
    and hE_SS: "lookup hE (Suc (Suc ?L)) = Some (Array [])"
    and hE_data: "lookup hE data = Some (Array [?L])"
    and hE_L: "lookup hE ?L = Some EmptyMarker"
    using lt ne hC_data hC_L by (auto simp: hE_def lk len)
  have hE_other: "\<And>a. a < ?L \<Longrightarrow> a \<noteq> P \<Longrightarrow> a \<noteq> data \<Longrightarrow> lookup hE a = lookup ?h0 a"
    using hC_other by (auto simp: hE_def lk len)
  have hE_kids: "\<exists>c es. lookup hE P = Some (Node fd (Some c)) \<and> lookup hE c = Some (Array es) \<and>
      (\<forall>x\<in>set es. lookup hE x = Some EmptyMarker)"
    using hE_P hE_SS by simp
  \<comment> \<open>the marker is pushed and the children are copied\<close>
  have w1: "(case lookup ?h0 data of
               Some (Array es) \<Rightarrow>
                 if length es = 0
                 then (let (emptyNode, h1) = alloc EmptyMarker ?h0
                       in w\<lparr>heap := push data emptyNode h1\<rparr>)
                 else w
             | _ \<Rightarrow> w) = w\<lparr>heap := hA\<rparr>"
    using data lt by (simp add: alloc_def push_def lookup_snoc hA_def)
  have lA: "lookup (hA @ [Array []]) data = Some (Array [?L])"
    "lookup (hA @ [Array []]) ?L = Some EmptyMarker"
    "lookup (hA @ [Array []]) (Suc ?L) = Some (Array [])"
    using lt by (auto simp: hA_def lk)
  have each: "copyChildren_each (Suc ?L) ?L (hA @ [Array []]) = (Return (), hB)"
    using lA by (simp add: copyChildren_each_def push_def hB_def)
  have cc: "copyChildren data (w\<lparr>heap := hA\<rparr>) = (Return (Suc ?L), w\<lparr>heap := hB\<rparr>)"
    using lA(1) each by (simp add: copyChildren_def alloc_def len children_forEach_def)
  \<comment> \<open>the copy is attached\<close>
  have ts: "tree_set d p (Suc ?L) ?t (w\<lparr>heap := hB\<rparr>) =
      (Return P, ?t\<lparr>pathToNodeIndex := pathToNodeIndex ?t\<rparr>, w\<lparr>heap := hB\<rparr>\<lparr>heap := hC\<rparr>)"
  proof -
    have 1: "lookup (heap (w\<lparr>heap := hB\<rparr>)) P = Some (Node fd (Some ch))" using lB(1) by simp
    have 2: "expandable fd \<longrightarrow> (\<exists>c old. Some ch = Some c \<and>
        lookup (heap (w\<lparr>heap := hB\<rparr>)) c = Some (Array old) \<and> (old = [] \<or> 0 < d))"
      using lB(2) dpos by simp
    have 3: "lookup (update P (Node fd (Some (Suc ?L))) (heap (w\<lparr>heap := hB\<rparr>))) (Suc ?L) = Some (Array [?L])"
      using hC_S by (simp add: hC_def)
    have "lookup hC ?L = Some EmptyMarker" by (rule hC_L)
    then have "index d hC ?L (pathToNodeIndex ?t) = (Return (), pathToNodeIndex ?t)"
      using dpos by (simp add: index_marker)
    then have 4: "forEach (index d (update P (Node fd (Some (Suc ?L))) (heap (w\<lparr>heap := hB\<rparr>))))
        [?L] (pathToNodeIndex ?t) = (Return (), pathToNodeIndex ?t)"
      by (simp add: hC_def del: index.simps)
    from tree_set_run[OF idx 1 2 3 4] show ?thesis by (simp add: hC_def)
  qed
  \<comment> \<open>the tree can still be saved\<close>
  have simC: "\<exists>v'. JSON_stringify (Suc d0) hC (root ?t) = Return v'"
  proof (rule stringify_marker_sim[OF _ _ _ _ ser])
    fix a assume a: "lookup ?h0 a = Some EmptyMarker"
    then have "a < ?L" "a \<noteq> P" "a \<noteq> data" using node data by (auto dest: lookup_Some_less)
    then show "lookup hC a = Some EmptyMarker" using a by (simp add: hC_other)
  next
    fix a fd' ch' assume a: "lookup ?h0 a = Some (Node fd' ch')"
    show "lookup hC a = Some (Node fd' ch') \<or>
        (\<exists>c es. lookup hC a = Some (Node fd' (Some c)) \<and> lookup hC c = Some (Array es) \<and>
                (\<forall>x\<in>set es. lookup hC x = Some EmptyMarker))"
    proof (cases "a = P")
      case True
      with a node have "fd' = fd" by simp
      with True hC_P hC_kids show ?thesis by blast
    next
      case False
      moreover from a have "a < ?L" "a \<noteq> data" using data by (auto dest: lookup_Some_less)
      ultimately show ?thesis using a by (simp add: hC_other)
    qed
  next
    fix a es' assume a: "lookup ?h0 a = Some (Array es')"
    show "lookup hC a = Some (Array es') \<or>
        (es' = [] \<and> (\<exists>x. lookup hC a = Some (Array [x]) \<and> lookup hC x = Some EmptyMarker))"
    proof (cases "a = data")
      case True
      with a data have "es' = []" by simp
      with True hC_data hC_L show ?thesis by blast
    next
      case False
      moreover from a have "a < ?L" "a \<noteq> P" using node by (auto dest: lookup_Some_less)
      ultimately show ?thesis using a by (simp add: hC_other)
    qed
  next
    fix a s assume a: "lookup ?h0 a = Some (Other s)"
    then have "a < ?L" "a \<noteq> P" "a \<noteq> data" using node data by (auto dest: lookup_Some_less)
    then show "lookup hC a = Some (Other s)" using a by (simp add: hC_other)
  qed
  then obtain v1 where sv1: "JSON_stringify (Suc d0) hC (root ?t) = Return v1" by blast
  have "Suc d0 \<le> d" using dep by simp
  with sv1 have serC: "JSON_stringify d hC (root ?t) = Return v1"
    by (rule stringify_fuel_mono)
  define w1 where "w1 = w\<lparr>heap := hC, localStorage := (localStorage w)(storageKey sh \<mapsto> Json v1)\<rparr>"
  have expand: "expand_callback d p data sh w = (Return P, sh, w1)"
    unfolding expand_callback_def w1
    using cc ts serC
    by (simp add: addNodes_def saveState_def getCurrentState_def w1_def)
  \<comment> \<open>the collapse\<close>
  have tc: "tree_clear d p ?t w1 = (Return (), ?t, w1\<lparr>heap := hE\<rparr>)"
  proof -
    have 1: "lookup (heap w1) P = Some (Node fd (Some (Suc ?L)))" by (simp add: w1_def hC_P)
    have 2: "expandable fd \<longrightarrow> (\<exists>c old. Some (Suc ?L) = Some c \<and>
        lookup (heap w1) c = Some (Array old) \<and> (old = [] \<or> 0 < d))"
      using dpos by (simp add: w1_def hC_S)
    from tree_clear_run[OF idx 1 2] show ?thesis by (simp add: w1_def hE_def len)
  qed
  have simE: "\<exists>v'. JSON_stringify (Suc d0) hE (root ?t) = Return v'"
  proof (rule stringify_marker_sim[OF _ _ _ _ ser])
    fix a assume a: "lookup ?h0 a = Some EmptyMarker"
    then have "a < ?L" "a \<noteq> P" "a \<noteq> data" using node data by (auto dest: lookup_Some_less)
    then show "lookup hE a = Some EmptyMarker" using a by (simp add: hE_other)
  next
    fix a fd' ch' assume a: "lookup ?h0 a = Some (Node fd' ch')"
    show "lookup hE a = Some (Node fd' ch') \<or>
        (\<exists>c es. lookup hE a = Some (Node fd' (Some c)) \<and> lookup hE c = Some (Array es) \<and>
                (\<forall>x\<in>set es. lookup hE x = Some EmptyMarker))"
    proof (cases "a = P")
      case True
      with a node have "fd' = fd" by simp
      with True hE_P hE_kids show ?thesis by blast
    next
      case False
      moreover from a have "a < ?L" "a \<noteq> data" using data by (auto dest: lookup_Some_less)
      ultimately show ?thesis using a by (simp add: hE_other)
    qed
  next
    fix a es' assume a: "lookup ?h0 a = Some (Array es')"
    show "lookup hE a = Some (Array es') \<or>
        (es' = [] \<and> (\<exists>x. lookup hE a = Some (Array [x]) \<and> lookup hE x = Some EmptyMarker))"
    proof (cases "a = data")
      case True
      with a data have "es' = []" by simp
      with True hE_data hE_L show ?thesis by blast
    next
      case False
      moreover from a have "a < ?L" "a \<noteq> P" using node by (auto dest: lookup_Some_less)
      ultimately show ?thesis using a by (simp add: hE_other)
    qed
  next
    fix a s assume a: "lookup ?h0 a = Some (Other s)"
    then have "a < ?L" "a \<noteq> P" "a \<noteq> data" using node data by (auto dest: lookup_Some_less)
    then show "lookup hE a = Some (Other s)" using a by (simp add: hE_other)
  qed
  then obtain v2 where sv2: "JSON_stringify (Suc d0) hE (root ?t) = Return v2" by blast
  have "Suc d0 \<le> d" using dep by simp
  with sv2 have serE: "JSON_stringify d hE (root ?t) = Return v2"
    by (rule stringify_fuel_mono)
  define w2 where "w2 = w1\<lparr>heap := hE, localStorage := (localStorage w1)(storageKey sh \<mapsto> Json v2)\<rparr>"
  have coll: "collapse d p sh w1 = (Return (), sh, w2)"
    using tc serE by (simp add: collapse_def clearNode_def saveState_def getCurrentState_def w2_def)
  have "lookup (heap w1) P = Some (Node fd (Some (Suc ?L)))"
    "lookup (heap w1) (Suc ?L) = Some (Array [?L])"
    "lookup (heap w1) ?L = Some EmptyMarker"
    "lookup (heap w2) P = Some (Node fd (Some (Suc (Suc ?L))))"
    "lookup (heap w2) (Suc (Suc ?L)) = Some (Array [])"
    by (simp_all add: w1_def w2_def hC_P hC_S hC_L hE_P hE_SS)
  with expand coll
  show "\<exists>w1 c e w2 c2.
      expand_callback d p data sh w = (Return P, sh, w1) \<and>
      lookup (heap w1) P = Some (Node fd (Some c)) \<and>
      lookup (heap w1) c = Some (Array [e]) \<and>
      lookup (heap w1) e = Some EmptyMarker \<and>
      collapse d p sh w1 = (Return (), sh, w2) \<and>
      lookup (heap w2) P = Some (Node fd (Some c2)) \<and>
      lookup (heap w2) c2 = Some (Array [])"
    by blast
next
  show "\<forall>k h a i r i' q x. index k h a i = (r, i') \<and> i' q = Some x \<and> lookup h x = Some EmptyMarker
       \<longrightarrow> i q = Some x"
  proof (intro allI impI)
    fix k h a i r i' q x
    assume "index k h a i = (r, i') \<and> i' q = Some x \<and> lookup h x = Some EmptyMarker"
    with index_sound[of k h a i r i' q x] show "i q = Some x"
      by (auto simp: indexed_node_def)
  qed
qed

text \<open>
  In the example the root is expanded with the empty array at address 2. The last line is
  \<^verbatim>\<open>index\<close> on a marker, with an index that was made to hold it before.
\<close>

theorem empty_listing_attaches_one_marker_witness:
  "lookup (heap listing_world) 2 = Some (Array []) \<and>
   pathToNodeIndex (htree listing_holder) [] = Some 1 \<and>
   lookup (heap listing_world) 1 = Some (Node rootFileData (Some 0)) \<and>
   lookup (heap listing_world) 0 = Some (Array []) \<and>
   JSON_stringify 1 (heap listing_world) (root (htree listing_holder)) =
     Return (JNode rootFileData (Some [])) \<and>
   (1::nat) < 2 \<and>
   (\<exists>w1 c e w2 c2.
      expand_callback 2 [] 2 listing_holder listing_world = (Return 1, listing_holder, w1) \<and>
      lookup (heap w1) 1 = Some (Node rootFileData (Some c)) \<and>
      lookup (heap w1) c = Some (Array [e]) \<and>
      lookup (heap w1) e = Some EmptyMarker \<and>
      collapse 2 [] listing_holder w1 = (Return (), listing_holder, w2) \<and>
      lookup (heap w2) 1 = Some (Node rootFileData (Some c2)) \<and>
      lookup (heap w2) c2 = Some (Array [])) \<and>
   index 1 [EmptyMarker] 0 [''m'' \<mapsto> 0] = (Return (), [''m'' \<mapsto> 0])"
proof -
  have h: "lookup (heap listing_world) 2 = Some (Array [])"
    "pathToNodeIndex (htree listing_holder) [] = Some 1"
    "lookup (heap listing_world) 1 = Some (Node rootFileData (Some 0))"
    "lookup (heap listing_world) 0 = Some (Array [])"
    "JSON_stringify 1 (heap listing_world) (root (htree listing_holder)) =
       Return (JNode rootFileData (Some []))"
    "(1::nat) < 2"
    by (simp_all add: listing_world_def listing_holder_def lookup_def)
  have i: "index 1 [EmptyMarker] 0 [''m'' \<mapsto> 0] = (Return (), [''m'' \<mapsto> 0])"
    by (simp add: lookup_def)
  from empty_listing_attaches_one_marker[OF h] h i show ?thesis by blast
qed

end
